theory Spec2Isabelle
  imports Complex_Main
begin

section \<open>Python floats\<close>

text \<open>
  The sweep helpers of \<^verbatim>\<open>amp_benchkit/sweeps.py\<close> compute on Python floats and
  branch on \<^verbatim>\<open>math.isfinite\<close> and on comparisons, so the three kinds of
  non-finite values are kept apart from the finite ones. A finite float is represented
  by the real number it denotes (every finite float is a real, so a statement about all
  \<open>Fin r\<close> covers every finite float). Comparisons, \<^verbatim>\<open>abs\<close> and
  \<^verbatim>\<open>math.isfinite\<close> are exact on floats. A sum, a product or a quotient of
  finite floats is rounded to a float and may overflow to an infinity. Where a branch
  of the helpers depends on such a result (the median and the threshold of the spike
  filter), the rounding is a parameter \<open>rnd\<close> of the model and what is proved holds for
  every rounding, so for the round-to-nearest of binary64. The operations \<open>fadd\<close>,
  \<open>fsub\<close> and \<open>fmul\<close> without that parameter give the exact real result on finite
  arguments; they stand where a value is computed and returned (the relative level of
  \<^verbatim>\<open>knee_sweep\<close>) and in the frequency mode of the reference selector, about
  which nothing is stated below.
\<close>

datatype pyfloat = Fin real | PInf | NInf | NaN

fun isfinite :: "pyfloat \<Rightarrow> bool" where
  "isfinite (Fin r) = True"
| "isfinite PInf = False"
| "isfinite NInf = False"
| "isfinite NaN = False"

text \<open>\<^verbatim>\<open>a > b\<close>: false as soon as one side is NaN.\<close>

fun fgt :: "pyfloat \<Rightarrow> pyfloat \<Rightarrow> bool" where
  "fgt NaN b = False"
| "fgt a NaN = False"
| "fgt (Fin a) (Fin b) = (a > b)"
| "fgt (Fin a) PInf = False"
| "fgt (Fin a) NInf = True"
| "fgt PInf PInf = False"
| "fgt PInf b = True"
| "fgt NInf b = False"

text \<open>\<^verbatim>\<open>a >= b\<close>, \<^verbatim>\<open>a < b\<close> and \<^verbatim>\<open>a <= b\<close>.\<close>

fun fge :: "pyfloat \<Rightarrow> pyfloat \<Rightarrow> bool" where
  "fge NaN b = False"
| "fge a NaN = False"
| "fge (Fin a) (Fin b) = (a \<ge> b)"
| "fge (Fin a) PInf = False"
| "fge (Fin a) NInf = True"
| "fge PInf b = True"
| "fge NInf NInf = True"
| "fge NInf b = False"

definition flt :: "pyfloat \<Rightarrow> pyfloat \<Rightarrow> bool" where
  "flt a b = fgt b a"

definition fle :: "pyfloat \<Rightarrow> pyfloat \<Rightarrow> bool" where
  "fle a b = fge b a"

text \<open>\<^verbatim>\<open>abs(a)\<close>.\<close>

fun fabs :: "pyfloat \<Rightarrow> pyfloat" where
  "fabs (Fin r) = Fin \<bar>r\<bar>"
| "fabs PInf = PInf"
| "fabs NInf = PInf"
| "fabs NaN = NaN"

text \<open>Negation, sum, difference and product, with the IEEE rules for the non-finite values.\<close>

fun fneg :: "pyfloat \<Rightarrow> pyfloat" where
  "fneg (Fin r) = Fin (- r)"
| "fneg PInf = NInf"
| "fneg NInf = PInf"
| "fneg NaN = NaN"

fun fadd :: "pyfloat \<Rightarrow> pyfloat \<Rightarrow> pyfloat" where
  "fadd NaN b = NaN"
| "fadd a NaN = NaN"
| "fadd (Fin a) (Fin b) = Fin (a + b)"
| "fadd (Fin a) b = b"
| "fadd a (Fin b) = a"
| "fadd PInf PInf = PInf"
| "fadd NInf NInf = NInf"
| "fadd PInf NInf = NaN"
| "fadd NInf PInf = NaN"

definition fsub :: "pyfloat \<Rightarrow> pyfloat \<Rightarrow> pyfloat" where
  "fsub a b = fadd a (fneg b)"

fun fmul :: "pyfloat \<Rightarrow> pyfloat \<Rightarrow> pyfloat" where
  "fmul NaN b = NaN"
| "fmul a NaN = NaN"
| "fmul (Fin a) (Fin b) = Fin (a * b)"
| "fmul (Fin a) PInf = (if a > 0 then PInf else if a < 0 then NInf else NaN)"
| "fmul (Fin a) NInf = (if a > 0 then NInf else if a < 0 then PInf else NaN)"
| "fmul PInf (Fin b) = (if b > 0 then PInf else if b < 0 then NInf else NaN)"
| "fmul NInf (Fin b) = (if b > 0 then NInf else if b < 0 then PInf else NaN)"
| "fmul PInf PInf = PInf"
| "fmul PInf NInf = NInf"
| "fmul NInf PInf = NInf"
| "fmul NInf NInf = PInf"

text \<open>
  The rounded operations: on two finite arguments the exact result goes through the
  rounding, which returns a finite float or, on overflow, an infinity; with a non-finite
  argument nothing is rounded. \<open>fhalf_rounded\<close> is \<^verbatim>\<open>s / 2\<close>.
\<close>

type_synonym rounding = "real \<Rightarrow> pyfloat"

definition fadd_rounded :: "rounding \<Rightarrow> pyfloat \<Rightarrow> pyfloat \<Rightarrow> pyfloat" where
  "fadd_rounded rnd a b = (case (a, b) of (Fin x, Fin y) \<Rightarrow> rnd (x + y) | _ \<Rightarrow> fadd a b)"

definition fmul_rounded :: "rounding \<Rightarrow> pyfloat \<Rightarrow> pyfloat \<Rightarrow> pyfloat" where
  "fmul_rounded rnd a b = (case (a, b) of (Fin x, Fin y) \<Rightarrow> rnd (x * y) | _ \<Rightarrow> fmul a b)"

definition fhalf_rounded :: "rounding \<Rightarrow> pyfloat \<Rightarrow> pyfloat" where
  "fhalf_rounded rnd s = (case s of Fin x \<Rightarrow> rnd (x / 2) | _ \<Rightarrow> s)"

text \<open>
  The builtin \<^verbatim>\<open>max(a, b)\<close> keeps its first argument unless the second compares
  greater, so a NaN in first place stays and a NaN in second place is dropped.
\<close>

definition py_max2 :: "pyfloat \<Rightarrow> pyfloat \<Rightarrow> pyfloat" where
  "py_max2 a b = (if fgt b a then b else a)"

text \<open>
  The builtins \<^verbatim>\<open>max(xs, key=k)\<close> and \<^verbatim>\<open>min(xs, key=k)\<close> on a non-empty
  list: one scan from the left that replaces the candidate only by an element whose key
  compares strictly greater (strictly smaller), so the first extremal element wins.
\<close>

fun max_key_scan :: "('a \<Rightarrow> pyfloat) \<Rightarrow> 'a \<Rightarrow> 'a list \<Rightarrow> 'a" where
  "max_key_scan key best [] = best"
| "max_key_scan key best (x # xs) =
     max_key_scan key (if fgt (key x) (key best) then x else best) xs"

fun min_key_scan :: "('a \<Rightarrow> pyfloat) \<Rightarrow> 'a \<Rightarrow> 'a list \<Rightarrow> 'a" where
  "min_key_scan key best [] = best"
| "min_key_scan key best (x # xs) =
     min_key_scan key (if flt (key x) (key best) then x else best) xs"

text \<open>
  \<^verbatim>\<open>statistics.median\<close> of a list of finite values: the middle element of the
  sorted data, or \<^verbatim>\<open>(data[i - 1] + data[i]) / 2\<close> for the two middle elements,
  where the sum is rounded and then the half of it. The spike filter calls it only
  behind the guard \<^verbatim>\<open>if not neighbors\<close>, on a non-empty list (on an empty one
  the library raises).
\<close>

definition median :: "rounding \<Rightarrow> real list \<Rightarrow> pyfloat" where
  "median rnd xs =
     (let data = sort xs; n = length data in
      if n mod 2 = 1 then Fin (data ! (n div 2))
      else (let i = n div 2 in
            fhalf_rounded rnd (fadd_rounded rnd (Fin (data ! (i - 1))) (Fin (data ! i)))))"

text \<open>\<^verbatim>\<open>str.lower\<close> on ASCII letters and \<^verbatim>\<open>str.startswith\<close>.\<close>

definition lower_char :: "char \<Rightarrow> char" where
  "lower_char c =
     (case map_of (zip ''ABCDEFGHIJKLMNOPQRSTUVWXYZ'' ''abcdefghijklmnopqrstuvwxyz'') c of
        Some l \<Rightarrow> l
      | None \<Rightarrow> c)"

definition lower :: "string \<Rightarrow> string" where
  "lower s = map lower_char s"

definition startswith :: "string \<Rightarrow> string \<Rightarrow> bool" where
  "startswith s p = (take (length p) s = p)"

datatype pyexc = ValueError string | IndexError | OtherException string | NonException string

text \<open>
  \<open>NonException\<close> stands for the exceptions that derive from \<^verbatim>\<open>BaseException\<close>
  only (\<^verbatim>\<open>KeyboardInterrupt\<close>, \<^verbatim>\<open>SystemExit\<close>): \<^verbatim>\<open>except Exception\<close>
  and \<^verbatim>\<open>suppress(Exception)\<close> do not catch them.
\<close>

fun is_Exception :: "pyexc \<Rightarrow> bool" where
  "is_Exception (NonException s) = False"
| "is_Exception e = True"

section \<open>Amplitude sanitizer: \<^verbatim>\<open>_clean_amplitudes\<close>\<close>

text \<open>
  One pass of the loop body: the state is the list \<^verbatim>\<open>cleaned\<close> built so far and
  \<^verbatim>\<open>last_finite\<close>.
\<close>

definition clean_step :: "pyfloat \<Rightarrow> pyfloat list \<times> pyfloat \<Rightarrow> pyfloat list \<times> pyfloat" where
  "clean_step amp st =
     (case st of (cleaned, last_finite) \<Rightarrow>
        if isfinite amp \<and> fgt amp (Fin 0)
        then (cleaned @ [fabs amp], fabs amp)
        else (cleaned @ [last_finite], last_finite))"

definition clean_amplitudes :: "pyfloat list \<Rightarrow> pyfloat list" where
  "clean_amplitudes amps = fst (fold clean_step amps ([], Fin (1 / 10 ^ 12)))"

section \<open>Monotonic envelope: \<^verbatim>\<open>_monotonic_envelope\<close>\<close>

text \<open>
  The body of the two loops is the same: the state is the envelope built so far and
  \<^verbatim>\<open>current\<close>, which starts at \<^verbatim>\<open>float("-inf")\<close>.
\<close>

definition env_step :: "pyfloat \<Rightarrow> pyfloat list \<times> pyfloat \<Rightarrow> pyfloat list \<times> pyfloat" where
  "env_step val st =
     (case st of (env, current) \<Rightarrow>
        let v = (if isfinite val then val else current);
            v = (if \<not> isfinite v then (if isfinite current then current else Fin 0) else v);
            current = (if \<not> isfinite current \<or> fgt v current then v else current)
        in (env @ [current], current))"

definition running_env :: "pyfloat list \<Rightarrow> pyfloat list" where
  "running_env xs = fst (fold env_step xs ([], NInf))"

definition monotonic_envelope :: "pyfloat list \<Rightarrow> int \<Rightarrow> pyfloat list" where
  "monotonic_envelope values ref_index =
     (let vals = values; n = int (length vals) in
      if n = 0 then []
      else
        let idx = max 0 (min ref_index (n - 1));
            lo = take (nat (idx + 1)) vals;
            hi = drop (nat idx) vals;
            lo_env = running_env lo;
            hi_env_rev = running_env (rev hi);
            hi_env = rev hi_env_rev
        in butlast lo_env @ hi_env)"

section \<open>Reference index: \<^verbatim>\<open>_reference_index\<close>\<close>

text \<open>
  In frequency mode the key reads \<^verbatim>\<open>freqs[i]\<close> for every eligible index of
  \<^verbatim>\<open>amps\<close>; when \<^verbatim>\<open>amps\<close> is longer than \<^verbatim>\<open>freqs\<close> that read raises
  IndexError. In the other mode only \<^verbatim>\<open>amps\<close> is read, at its own indices.
\<close>

definition eligible :: "pyfloat \<Rightarrow> bool" where
  "eligible amp = (isfinite amp \<and> fgt amp (Fin 0))"

definition reference_index ::
  "pyfloat list \<Rightarrow> pyfloat list \<Rightarrow> string \<Rightarrow> pyfloat \<Rightarrow> pyexc + nat" where
  "reference_index freqs amps ref_mode ref_hz =
     (let n = length freqs in
      if n = 0 then Inr 0
      else
        let finite_indices = filter (\<lambda>i. eligible (amps ! i)) [0 ..< length amps] in
        (case finite_indices of
           [] \<Rightarrow> Inr 0
         | i0 # rest \<Rightarrow>
             let mode = lower ref_mode in
             if startswith mode ''freq''
             then
               (let target = ref_hz in
                if list_ex (\<lambda>i. length freqs \<le> i) finite_indices then Inl IndexError
                else Inr (min_key_scan (\<lambda>i. fabs (fsub (freqs ! i) target)) i0 rest))
             else Inr (max_key_scan (\<lambda>i. amps ! i) i0 rest)))"

section \<open>Spike filter: \<^verbatim>\<open>_filter_spikes\<close>\<close>

type_synonym row = "pyfloat \<times> pyfloat \<times> pyfloat \<times> pyfloat"
type_synonym suppression = "pyfloat \<times> pyfloat \<times> pyfloat"

definition row_thd :: "row \<Rightarrow> pyfloat" where
  "row_thd r = (case r of (freq, vr, pk, thd_percent) \<Rightarrow> thd_percent)"

fun finite_value :: "pyfloat \<Rightarrow> real option" where
  "finite_value (Fin r) = Some r"
| "finite_value x = None"

text \<open>
  The finite THD values of the rows \<^verbatim>\<open>range(max(0, idx - window),
  min(total, idx + window + 1))\<close> other than \<^verbatim>\<open>idx\<close>. \<^verbatim>\<open>window\<close> is a
  Python int and may be negative, which leaves the range empty.
\<close>

definition neighbors :: "row list \<Rightarrow> int \<Rightarrow> nat \<Rightarrow> real list" where
  "neighbors rows window idx =
     (let total = int (length rows);
          start = max 0 (int idx - window);
          stop = min total (int idx + window + 1)
      in List.map_filter
           (\<lambda>j. if j \<noteq> idx then finite_value (row_thd (rows ! j)) else None)
           [nat start ..< nat stop])"

definition spike_step ::
  "rounding \<Rightarrow> row list \<Rightarrow> int \<Rightarrow> pyfloat \<Rightarrow> pyfloat \<Rightarrow> nat \<times> row \<Rightarrow>
   row list \<times> suppression list \<Rightarrow> row list \<times> suppression list" where
  "spike_step rnd rows window factor min_percent item st =
     (case (item, st) of ((idx, (freq, vr, pk, thd_percent)), (filtered, suppressed)) \<Rightarrow>
        let nb = neighbors rows window idx in
        if nb = [] \<or> \<not> isfinite thd_percent
        then (filtered @ [(freq, vr, pk, thd_percent)], suppressed)
        else
          let baseline = median rnd nb;
              threshold = py_max2 min_percent (fmul_rounded rnd baseline factor)
          in if fgt thd_percent threshold
             then (filtered @ [(freq, vr, pk, baseline)],
                   suppressed @ [(freq, thd_percent, baseline)])
             else (filtered @ [(freq, vr, pk, thd_percent)], suppressed))"

definition filter_spikes ::
  "rounding \<Rightarrow> row list \<Rightarrow> int \<Rightarrow> pyfloat \<Rightarrow> pyfloat \<Rightarrow>
   row list \<times> suppression list" where
  "filter_spikes rnd rows window factor min_percent =
     fold (spike_step rnd rows window factor min_percent) (enumerate 0 rows) ([], [])"

subsection \<open>The spike filter row by row\<close>

text \<open>
  The quantities of one pass of the loop, as functions of the row index:
  \<^verbatim>\<open>baseline\<close>, \<^verbatim>\<open>threshold\<close>, whether the row is replaced, the row that is
  appended to \<^verbatim>\<open>filtered\<close> and the record that is appended to
  \<^verbatim>\<open>suppressed\<close>. \<open>row_frame\<close> is a row without its THD column.
\<close>

definition spike_baseline :: "rounding \<Rightarrow> row list \<Rightarrow> int \<Rightarrow> nat \<Rightarrow> pyfloat" where
  "spike_baseline rnd rows window idx = median rnd (neighbors rows window idx)"

definition spike_threshold ::
  "rounding \<Rightarrow> row list \<Rightarrow> int \<Rightarrow> pyfloat \<Rightarrow> pyfloat \<Rightarrow> nat \<Rightarrow> pyfloat" where
  "spike_threshold rnd rows window factor min_percent idx =
     py_max2 min_percent (fmul_rounded rnd (spike_baseline rnd rows window idx) factor)"

definition spike_hit ::
  "rounding \<Rightarrow> row list \<Rightarrow> int \<Rightarrow> pyfloat \<Rightarrow> pyfloat \<Rightarrow> nat \<times> row \<Rightarrow> bool" where
  "spike_hit rnd rows window factor min_percent item =
     (case item of (idx, (freq, vr, pk, thd_percent)) \<Rightarrow>
        neighbors rows window idx \<noteq> [] \<and> isfinite thd_percent \<and>
        fgt thd_percent (spike_threshold rnd rows window factor min_percent idx))"

definition spike_row ::
  "rounding \<Rightarrow> row list \<Rightarrow> int \<Rightarrow> pyfloat \<Rightarrow> pyfloat \<Rightarrow> nat \<times> row \<Rightarrow> row" where
  "spike_row rnd rows window factor min_percent item =
     (case item of (idx, (freq, vr, pk, thd_percent)) \<Rightarrow>
        (freq, vr, pk,
         if spike_hit rnd rows window factor min_percent item
         then spike_baseline rnd rows window idx else thd_percent))"

definition spike_record :: "rounding \<Rightarrow> row list \<Rightarrow> int \<Rightarrow> nat \<times> row \<Rightarrow> suppression" where
  "spike_record rnd rows window item =
     (case item of (idx, (freq, vr, pk, thd_percent)) \<Rightarrow>
        (freq, thd_percent, spike_baseline rnd rows window idx))"

text \<open>
  A rounding that agrees with binary64 on the three operations of one example: with
  the floats \<^verbatim>\<open>0.1\<close> and \<^verbatim>\<open>0.30000000000000004\<close>, the sum
  \<^verbatim>\<open>0.1 + 0.1\<close> and its half are exact, and the product \<^verbatim>\<open>0.1 * 3.0\<close>,
  which is no float, rounds up to \<^verbatim>\<open>0.30000000000000004\<close>.
\<close>

definition float_0_1 :: real where
  "float_0_1 = 3602879701896397 / 2 ^ 55"

definition float_0_30000000000000004 :: real where
  "float_0_30000000000000004 = 1351079888211149 / 2 ^ 52"

definition example_rounding :: rounding where
  "example_rounding x =
     (if x = float_0_1 * 3 then Fin float_0_30000000000000004 else Fin x)"

definition row_frame :: "row \<Rightarrow> pyfloat \<times> pyfloat \<times> pyfloat" where
  "row_frame r = (case r of (freq, vr, pk, thd_percent) \<Rightarrow> (freq, vr, pk))"

section \<open>Sweep drivers: \<^verbatim>\<open>thd_sweep\<close> and \<^verbatim>\<open>knee_sweep\<close>\<close>

text \<open>
  The drivers call into modules that are not part of \<^verbatim>\<open>sweeps.py\<close>: the point
  builder and the measurement loop (\<^verbatim>\<open>automation\<close>), the generator link
  (\<^verbatim>\<open>fy\<close>), the oscilloscope (\<^verbatim>\<open>tek\<close>), the calibration curve and the file
  system. Each of them either returns or raises, and that outcome is a parameter of the
  model: a function that raises returns \<open>Inl\<close> (or \<open>Some\<close> exception when it has no
  result). \<^verbatim>\<open>scope_resume_run\<close> and \<^verbatim>\<open>scope_configure_timebase\<close> of
  \<^verbatim>\<open>tek.py\<close> open the VISA resource outside any handler, so they can raise.
  The rounding of the float arithmetic that the spike filter branches on is the last
  parameter, \<open>round_to_float\<close>.
  The knee detector closure, the vertical scale map and the channel options are only
  handed on to \<^verbatim>\<open>sweep_audio_kpis\<close>; they are part of that call's outcome.
  The loop that normalises \<^verbatim>\<open>scope_scale_map\<close> catches what
  \<^verbatim>\<open>float(gain)\<close> raises and logs it; with gains of the annotated type
  \<^verbatim>\<open>float\<close> nothing is raised and nothing is logged there.
  The parameter \<^verbatim>\<open>filter_spikes\<close> of \<^verbatim>\<open>thd_sweep\<close> is the field
  \<open>filter_spikes_enabled\<close>, since the function of that name is defined above.
\<close>

type_synonym raw_row = "pyfloat \<times> pyfloat \<times> pyfloat \<times> pyfloat \<times> pyfloat"
type_synonym knees = "pyfloat \<times> pyfloat \<times> pyfloat \<times> pyfloat"

record calibration_curve =
  cal_apply :: "pyfloat \<Rightarrow> pyfloat \<Rightarrow> pyfloat"
  cal_ratio_at :: "pyfloat \<Rightarrow> pyfloat"

record kpi_result =
  kpi_rows :: "raw_row list"
  kpi_knees :: "knees option"

record collaborators =
  build_freq_points :: "pyfloat \<Rightarrow> pyfloat \<Rightarrow> int \<Rightarrow> pyexc + pyfloat list"
  sweep_audio_kpis :: "pyfloat list \<Rightarrow> pyfloat \<Rightarrow> pyfloat \<Rightarrow> pyexc + kpi_result"
  csv_write :: "string \<Rightarrow> string list \<Rightarrow> row list \<Rightarrow> pyexc option"
  scope_resume_run :: "string \<Rightarrow> pyexc option"
  fy_apply :: "string option \<Rightarrow> string \<Rightarrow> pyfloat \<Rightarrow> pyfloat \<Rightarrow> pyexc option"
  scope_configure_timebase :: "string \<Rightarrow> pyfloat \<Rightarrow> pyexc option"
  round_to_float :: rounding

text \<open>
  What the caller can observe besides the result: the calls that reach an instrument, in
  order, and the warning that the drivers write to the logger
  \<^verbatim>\<open>amp_benchkit.sweeps\<close> when the restore of the generator fails.
\<close>

datatype event =
    Call_sweep_audio_kpis
  | Call_scope_resume_run string
  | Call_fy_apply "string option" string pyfloat pyfloat
  | Call_scope_configure_timebase string pyfloat
  | Log_warning_fy_reset pyfloat pyfloat string string pyexc

fun is_warning :: "event \<Rightarrow> bool" where
  "is_warning (Log_warning_fy_reset f a port proto e) = True"
| "is_warning ev = False"

record sweep_args =
  visa_resource :: string
  fy_port :: "string option"
  amp_vpp :: pyfloat
  calibrate_to_vpp :: "pyfloat option"
  fy_proto :: string
  start_hz :: pyfloat
  stop_hz :: pyfloat
  points :: int
  dwell_s :: pyfloat
  "output" :: "string option"
  calibration_curve :: "calibration_curve option"

record thd_args = sweep_args +
  post_freq_hz :: pyfloat
  post_seconds_per_div :: "pyfloat option"
  filter_spikes_enabled :: bool
  filter_window :: int
  filter_factor :: pyfloat
  filter_min_percent :: pyfloat

record knee_args = sweep_args +
  knee_drop_db :: pyfloat
  smoothing :: "string option"

record knee_result =
  res_rows :: "row list"
  res_knees :: "knees option"
  res_ref_db :: pyfloat
  res_target_db :: pyfloat
  res_csv_path :: "string option"

text \<open>
  The per-row calibration of both drivers: with a curve, finite \<^verbatim>\<open>vr\<close> and
  \<^verbatim>\<open>pk\<close> are corrected, non-finite ones are passed through. A curve object
  counts as true in \<^verbatim>\<open>if calibration_curve\<close>, \<^verbatim>\<open>None\<close> as false.
\<close>

definition calibrate :: "calibration_curve option \<Rightarrow> pyfloat \<Rightarrow> pyfloat \<Rightarrow> pyfloat" where
  "calibrate curve freq v =
     (case curve of
        None \<Rightarrow> v
      | Some c \<Rightarrow> if isfinite v then cal_apply c freq v else v)"

text \<open>\<^verbatim>\<open>fy_port or "<auto>"\<close>, the port as the warning prints it.\<close>

definition port_or_auto :: "string option \<Rightarrow> string" where
  "port_or_auto port =
     (case port of None \<Rightarrow> ''<auto>'' | Some p \<Rightarrow> if p = [] then ''<auto>'' else p)"

subsection \<open>\<^verbatim>\<open>thd_sweep\<close>\<close>

definition thd_row :: "calibration_curve option \<Rightarrow> raw_row \<Rightarrow> row" where
  "thd_row curve r =
     (case r of (freq, vr, pk, thd_ratio, thd_percent) \<Rightarrow>
        (freq, calibrate curve freq vr, calibrate curve freq pk, thd_percent))"

text \<open>
  Lines 195 to 317: validation, the measurement loop, calibration, the spike filter and
  the CSV file. The second component is the trace of events.
\<close>

definition thd_sweep_measure ::
  "collaborators \<Rightarrow> 'a thd_args_scheme \<Rightarrow>
   (pyexc + row list \<times> string option \<times> suppression list) \<times> event list" where
  "thd_sweep_measure w a =
     (if points a < 2 then (Inl (ValueError ''points must be >= 2''), [])
      else if \<not> isfinite (amp_vpp a) \<or> fle (amp_vpp a) (Fin 0)
      then (Inl (ValueError ''amp_vpp must be > 0''), [])
      else if \<not> isfinite (dwell_s a) \<or> flt (dwell_s a) (Fin 0)
      then (Inl (ValueError ''dwell_s must be >= 0''), [])
      else
        (case build_freq_points w (start_hz a) (stop_hz a) (points a) of
           Inl e \<Rightarrow> (Inl e, [])
         | Inr freqs \<Rightarrow>
             if calibrate_to_vpp a \<noteq> None \<and> calibration_curve a = None
             then (Inl (ValueError ''calibrate_to_vpp requires calibration_curve''), [])
             else
               let sweep_amp = (case calibrate_to_vpp a of Some t \<Rightarrow> t | None \<Rightarrow> amp_vpp a) in
               (case sweep_audio_kpis w freqs sweep_amp (dwell_s a) of
                  Inl e \<Rightarrow> (Inl e, [Call_sweep_audio_kpis])
                | Inr result \<Rightarrow>
                    let rows = map (thd_row (calibration_curve a)) (kpi_rows result);
                        (rows, suppressed) =
                          (if filter_spikes_enabled a \<and> rows \<noteq> []
                           then filter_spikes (round_to_float w) rows (filter_window a)
                                  (filter_factor a) (filter_min_percent a)
                           else (rows, []))
                    in
                    (case output a of
                       None \<Rightarrow> (Inr (rows, None, suppressed), [Call_sweep_audio_kpis])
                     | Some path \<Rightarrow>
                         (case csv_write w path
                                 [''freq_hz'', ''vrms'', ''pkpk'', ''thd_percent''] rows of
                            Some e \<Rightarrow> (Inl e, [Call_sweep_audio_kpis])
                          | None \<Rightarrow>
                              (Inr (rows, Some path, suppressed), [Call_sweep_audio_kpis]))))))"

text \<open>
  Lines 319 to 342, the restore of the idle state. \<^verbatim>\<open>scope_resume_run\<close> is called
  outside any handler; the generator call is inside \<^verbatim>\<open>try ... except Exception\<close>
  with a warning; the timebase call is inside \<^verbatim>\<open>suppress(Exception)\<close>, which logs
  nothing.
\<close>

definition thd_sweep_restore ::
  "collaborators \<Rightarrow> 'a thd_args_scheme \<Rightarrow> row list \<times> string option \<times> suppression list \<Rightarrow>
   (pyexc + row list \<times> string option \<times> suppression list) \<times> event list" where
  "thd_sweep_restore w a ret =
     (let t1 = [Call_scope_resume_run (visa_resource a)] in
      case scope_resume_run w (visa_resource a) of
        Some e \<Rightarrow> (Inl e, t1)
      | None \<Rightarrow>
          let t2 = t1 @ [Call_fy_apply (fy_port a) (fy_proto a) (post_freq_hz a) (amp_vpp a)];
              fy = fy_apply w (fy_port a) (fy_proto a) (post_freq_hz a) (amp_vpp a)
          in
          (case (case fy of
                   None \<Rightarrow> Inr t2
                 | Some exc \<Rightarrow>
                     if is_Exception exc
                     then Inr (t2 @ [Log_warning_fy_reset (post_freq_hz a) (amp_vpp a)
                                       (port_or_auto (fy_port a)) (fy_proto a) exc])
                     else Inl (exc, t2)) of
             Inl (exc, t) \<Rightarrow> (Inl exc, t)
           | Inr t3 \<Rightarrow>
               (case post_seconds_per_div a of
                  None \<Rightarrow> (Inr ret, t3)
                | Some spd \<Rightarrow>
                    let t4 = t3 @ [Call_scope_configure_timebase (visa_resource a) spd] in
                    (case scope_configure_timebase w (visa_resource a) spd of
                       None \<Rightarrow> (Inr ret, t4)
                     | Some exc \<Rightarrow> if is_Exception exc then (Inr ret, t4) else (Inl exc, t4)))))"

definition thd_sweep ::
  "collaborators \<Rightarrow> 'a thd_args_scheme \<Rightarrow>
   (pyexc + row list \<times> string option \<times> suppression list) \<times> event list" where
  "thd_sweep w a =
     (case thd_sweep_measure w a of
        (Inl e, t) \<Rightarrow> (Inl e, t)
      | (Inr ret, t) \<Rightarrow>
          (case thd_sweep_restore w a ret of (r, t') \<Rightarrow> (r, t @ t')))"

subsection \<open>\<^verbatim>\<open>knee_sweep\<close>\<close>

text \<open>
  \<^verbatim>\<open>math.log10\<close> on the values the driver passes: it is called only behind
  \<^verbatim>\<open>math.isfinite(pk) and pk > 0\<close> (elsewhere the library raises or returns a
  non-finite value).
\<close>

fun flog10 :: "pyfloat \<Rightarrow> pyfloat" where
  "flog10 (Fin r) = Fin (log 10 r)"
| "flog10 PInf = PInf"
| "flog10 NInf = NaN"
| "flog10 NaN = NaN"

definition knee_row :: "calibration_curve option \<Rightarrow> knees option \<Rightarrow> pyfloat \<Rightarrow> raw_row \<Rightarrow> row" where
  "knee_row curve knees ref_db_val r =
     (case r of (freq, vr, pk, thd_ratio, thd_percent) \<Rightarrow>
        let vr = calibrate curve freq vr;
            pk = calibrate curve freq pk;
            rel_db =
              (if knees \<noteq> None \<and> isfinite pk \<and> fgt pk (Fin 0) \<and> isfinite ref_db_val
               then fsub (fmul (Fin 20) (flog10 pk)) ref_db_val
               else NInf)
        in (freq, vr, pk, rel_db))"

text \<open>\<^verbatim>\<open>(smoothing or "none").lower()\<close>: \<^verbatim>\<open>None\<close> and the empty string are falsy.\<close>

definition smoothing_mode :: "string option \<Rightarrow> string" where
  "smoothing_mode s =
     lower (case s of None \<Rightarrow> ''none'' | Some x \<Rightarrow> if x = [] then ''none'' else x)"

text \<open>Lines 393 to 537: validation, the measurement loop, the rows and the CSV file.\<close>

definition knee_sweep_measure ::
  "collaborators \<Rightarrow> 'a knee_args_scheme \<Rightarrow> (pyexc + knee_result) \<times> event list" where
  "knee_sweep_measure w a =
     (if points a < 2 then (Inl (ValueError ''points must be >= 2''), [])
      else if \<not> isfinite (amp_vpp a) \<or> fle (amp_vpp a) (Fin 0)
      then (Inl (ValueError ''amp_vpp must be > 0''), [])
      else if \<not> isfinite (dwell_s a) \<or> flt (dwell_s a) (Fin 0)
      then (Inl (ValueError ''dwell_s must be >= 0''), [])
      else if \<not> isfinite (knee_drop_db a) \<or> fle (knee_drop_db a) (Fin 0)
      then (Inl (ValueError ''knee_drop_db must be > 0''), [])
      else
        (case build_freq_points w (start_hz a) (stop_hz a) (points a) of
           Inl e \<Rightarrow> (Inl e, [])
         | Inr freqs \<Rightarrow>
             if calibrate_to_vpp a \<noteq> None \<and> calibration_curve a = None
             then (Inl (ValueError ''calibrate_to_vpp requires calibration_curve''), [])
             else
               let sweep_amp = (case calibrate_to_vpp a of Some t \<Rightarrow> t | None \<Rightarrow> amp_vpp a) in
               if smoothing_mode (smoothing a) \<notin> set [''median'', ''mean'', ''none'']
               then (Inl (ValueError
                       ''smoothing must be one of 'median', 'mean', or 'none' ''), [])
               else
                 (case sweep_audio_kpis w freqs sweep_amp (dwell_s a) of
                    Inl e \<Rightarrow> (Inl e, [Call_sweep_audio_kpis])
                  | Inr result \<Rightarrow>
                      let rows_raw = kpi_rows result;
                          knees = kpi_knees result;
                          (ref_db_val, target_db) =
                            (case knees of
                               None \<Rightarrow> (NaN, NaN)
                             | Some (f_lo, f_hi, ref_amp, ref_db) \<Rightarrow>
                                 (ref_db, fsub ref_db (knee_drop_db a)));
                          rows = map (knee_row (calibration_curve a) knees ref_db_val) rows_raw;
                          ret = \<lambda>csv_path. \<lparr>res_rows = rows, res_knees = knees,
                                   res_ref_db = ref_db_val, res_target_db = target_db,
                                   res_csv_path = csv_path\<rparr>
                      in
                      (case output a of
                         None \<Rightarrow> (Inr (ret None), [Call_sweep_audio_kpis])
                       | Some path \<Rightarrow>
                           (case csv_write w path
                                   [''freq_hz'', ''vrms'', ''pkpk'', ''rel_db''] rows of
                              Some e \<Rightarrow> (Inl e, [Call_sweep_audio_kpis])
                            | None \<Rightarrow> (Inr (ret (Some path)), [Call_sweep_audio_kpis]))))))"

text \<open>
  Lines 539 to 556: the restore, as in \<^verbatim>\<open>thd_sweep\<close> but to the fixed tone of
  1000 Hz and without the timebase.
\<close>

definition knee_sweep_restore ::
  "collaborators \<Rightarrow> 'a knee_args_scheme \<Rightarrow> knee_result \<Rightarrow> (pyexc + knee_result) \<times> event list" where
  "knee_sweep_restore w a ret =
     (let t1 = [Call_scope_resume_run (visa_resource a)] in
      case scope_resume_run w (visa_resource a) of
        Some e \<Rightarrow> (Inl e, t1)
      | None \<Rightarrow>
          let t2 = t1 @ [Call_fy_apply (fy_port a) (fy_proto a) (Fin 1000) (amp_vpp a)] in
          (case fy_apply w (fy_port a) (fy_proto a) (Fin 1000) (amp_vpp a) of
             None \<Rightarrow> (Inr ret, t2)
           | Some exc \<Rightarrow>
               if is_Exception exc
               then (Inr ret, t2 @ [Log_warning_fy_reset (Fin 1000) (amp_vpp a)
                                      (port_or_auto (fy_port a)) (fy_proto a) exc])
               else (Inl exc, t2)))"

definition knee_sweep ::
  "collaborators \<Rightarrow> 'a knee_args_scheme \<Rightarrow> (pyexc + knee_result) \<times> event list" where
  "knee_sweep w a =
     (case knee_sweep_measure w a of
        (Inl e, t) \<Rightarrow> (Inl e, t)
      | (Inr ret, t) \<Rightarrow>
          (case knee_sweep_restore w a ret of (r, t') \<Rightarrow> (r, t @ t')))"

subsection \<open>The collaborators and arguments of the test suite\<close>

text \<open>
  \<^verbatim>\<open>tests/test_sweeps.py\<close> replaces the instruments by stubs that return at once
  and measures three points with \<^verbatim>\<open>(f, 1.0, 2.0, 0.01, 1.0)\<close> per frequency; its
  arguments are \<^verbatim>\<open>amp_vpp=0.5\<close>, 100 Hz to 200 Hz, three points, no dwell, no
  output file, no spike filter, so that no float arithmetic is rounded (the rounding of
  the stubs is the exact one).
\<close>

definition stub_collaborators :: collaborators where
  "stub_collaborators =
     \<lparr>build_freq_points = (\<lambda>start stop n. Inr [Fin 100, Fin 150, Fin 200]),
      sweep_audio_kpis =
        (\<lambda>freqs amp dwell.
           Inr \<lparr>kpi_rows = map (\<lambda>f. (f, Fin 1, Fin 2, Fin (1 / 100), Fin 1)) freqs,
                kpi_knees = None\<rparr>),
      csv_write = (\<lambda>path header rows. None),
      scope_resume_run = (\<lambda>resource. None),
      fy_apply = (\<lambda>port proto freq amp. None),
      scope_configure_timebase = (\<lambda>resource spd. None),
      round_to_float = Fin\<rparr>"

definition stub_thd_args :: thd_args where
  "stub_thd_args =
     \<lparr>visa_resource = ''FAKE::SCOPE'', fy_port = Some ''FAKE::GEN'', amp_vpp = Fin (1 / 2),
      calibrate_to_vpp = None, fy_proto = ''FY ASCII 9600'', start_hz = Fin 100,
      stop_hz = Fin 200, points = 3, dwell_s = Fin 0, output = None,
      calibration_curve = None, post_freq_hz = Fin 1234, post_seconds_per_div = None,
      filter_spikes_enabled = False, filter_window = 2, filter_factor = Fin 2,
      filter_min_percent = Fin 2\<rparr>"

definition stub_knee_args :: knee_args where
  "stub_knee_args =
     \<lparr>visa_resource = ''FAKE::SCOPE'', fy_port = Some ''FAKE::GEN'', amp_vpp = Fin 1,
      calibrate_to_vpp = None, fy_proto = ''FY ASCII 9600'', start_hz = Fin 20,
      stop_hz = Fin 20000, points = 3, dwell_s = Fin 0, output = None,
      calibration_curve = None, knee_drop_db = Fin 3, smoothing = Some ''median''\<rparr>"


section \<open>Properties of the comparisons\<close>


lemma fgt_fge_finite: "isfinite a \<Longrightarrow> isfinite b \<Longrightarrow> (\<not> fgt a b) = fge b a"
  by (cases a; cases b) auto

lemma fgt_imp_fge: "fgt a b \<Longrightarrow> fge a b"
  by (cases a; cases b) auto

lemma fge_trans: "fge a b \<Longrightarrow> fge b c \<Longrightarrow> fge a c"
  by (cases a; cases b; cases c) auto

lemma fgt_fge_trans: "fgt a b \<Longrightarrow> fge b c \<Longrightarrow> fgt a c"
  by (cases a; cases b; cases c) auto

lemma fge_fgt_trans: "fge a b \<Longrightarrow> fgt b c \<Longrightarrow> fgt a c"
  by (cases a; cases b; cases c) auto

lemma fge_refl: "isfinite a \<Longrightarrow> fge a a"
  by (cases a) auto

section \<open>Properties of the sanitizer\<close>

lemma clean_step_fold_positive:
  "\<forall>a \<in> set amps. isfinite a \<and> fgt a (Fin 0) \<Longrightarrow>
   fst (fold clean_step amps (acc, l)) = acc @ map fabs amps"
proof (induction amps arbitrary: acc l)
  case Nil
  show ?case by simp
next
  case (Cons a amps)
  have ok: "isfinite a \<and> fgt a (Fin 0)" using Cons.prems by simp
  have rest: "\<forall>a \<in> set amps. isfinite a \<and> fgt a (Fin 0)" using Cons.prems by simp
  have "fold clean_step (a # amps) (acc, l) = fold clean_step amps (acc @ [fabs a], fabs a)"
    using ok by (simp add: clean_step_def)
  then show ?case using Cons.IH [OF rest] by simp
qed

lemma fabs_positive: "isfinite a \<Longrightarrow> fgt a (Fin 0) \<Longrightarrow> fabs a = a"
  by (cases a) simp_all

text \<open>
  C1. On the input \<^verbatim>\<open>[1.0, nan, -2.0, 0.0]\<close> the sanitizer does not return
  \<^verbatim>\<open>[1.0, 1.0, 2.0, 2.0]\<close>: the entry \<^verbatim>\<open>-2.0\<close> fails the test
  \<^verbatim>\<open>amp > 0\<close>, so it is itself replaced by the last good value and never becomes
  the last good value.
\<close>

theorem clean_amplitudes_carry_forward_counterexample:
  "clean_amplitudes [Fin 1, NaN, Fin (- 2), Fin 0] \<noteq> [Fin 1, Fin 1, Fin 2, Fin 2]"
  by (simp add: clean_amplitudes_def clean_step_def)

text \<open>
  C1, as the code has it: on \<^verbatim>\<open>[1.0, nan, -2.0, 0.0]\<close> every entry that is not
  finite and strictly positive (the NaN, the negative entry and the zero) is replaced by
  the last finite positive input seen so far, and the result is
  \<^verbatim>\<open>[1.0, 1.0, 1.0, 1.0]\<close>.
\<close>

theorem clean_amplitudes_carry_forward:
  "clean_amplitudes [Fin 1, NaN, Fin (- 2), Fin 0] = [Fin 1, Fin 1, Fin 1, Fin 1]"
  by (simp add: clean_amplitudes_def clean_step_def)

text \<open>
  C9. On a sequence of finite, strictly positive floats the sanitizer returns the
  elementwise absolute value, which is the input itself.
\<close>

theorem clean_amplitudes_clean_input:
  assumes "\<forall>a \<in> set x. isfinite a \<and> fgt a (Fin 0)"
  shows "clean_amplitudes x = map fabs x \<and> clean_amplitudes x = x"
proof -
  have eq: "clean_amplitudes x = map fabs x"
    using clean_step_fold_positive [OF assms, of "[]"] by (simp add: clean_amplitudes_def)
  have "map fabs x = x"
    using assms by (induction x) (simp_all add: fabs_positive)
  with eq show ?thesis by simp
qed

theorem clean_amplitudes_clean_input_witness:
  "clean_amplitudes [Fin 3, Fin (1 / 2), Fin 7] = map fabs [Fin 3, Fin (1 / 2), Fin 7] \<and>
   clean_amplitudes [Fin 3, Fin (1 / 2), Fin 7] = [Fin 3, Fin (1 / 2), Fin 7]"
proof -
  have h: "\<forall>a \<in> set [Fin 3, Fin (1 / 2), Fin 7]. isfinite a \<and> fgt a (Fin 0)" by simp
  show ?thesis using clean_amplitudes_clean_input [OF h] .
qed

section \<open>Properties of the envelope builder\<close>

lemma env_step_fold_length:
  "length (fst (fold env_step xs (acc, c))) = length acc + length xs"
proof (induction xs arbitrary: acc c)
  case Nil
  show ?case by simp
next
  case (Cons x xs)
  obtain acc' c' where st: "env_step x (acc, c) = (acc', c')" by (cases "env_step x (acc, c)")
  then have "length acc' = Suc (length acc)"
    by (auto simp: env_step_def Let_def)
  then show ?case using Cons.IH [of acc' c'] st by simp
qed

lemma running_env_length: "length (running_env xs) = length xs"
  using env_step_fold_length [of xs "[]" NInf] by (simp add: running_env_def)

lemma monotonic_envelope_length: "length (monotonic_envelope vals r) = length vals"
proof (cases "vals = []")
  case True
  then show ?thesis by (simp add: monotonic_envelope_def)
next
  case False
  then have n: "0 < length vals" by simp
  define idx where "idx = max 0 (min r (int (length vals) - 1))"
  have rng: "0 \<le> idx" "idx < int (length vals)" using n by (auto simp: idx_def)
  have "monotonic_envelope vals r =
        butlast (running_env (take (nat (idx + 1)) vals)) @
        rev (running_env (rev (drop (nat idx) vals)))"
    using False by (simp add: monotonic_envelope_def Let_def idx_def)
  moreover have "length (butlast (running_env (take (nat (idx + 1)) vals))) = nat idx"
    using rng by (simp add: running_env_length nat_add_distrib)
  moreover have "length (rev (running_env (rev (drop (nat idx) vals)))) = length vals - nat idx"
    by (simp add: running_env_length)
  ultimately show ?thesis using rng by simp
qed

lemma monotonic_envelope_clamp:
  "monotonic_envelope vals r = monotonic_envelope vals (max 0 (min r (int (length vals) - 1)))"
  by (simp add: monotonic_envelope_def Let_def)

lemma env_step_result:
  "\<exists>c'. env_step val (env, c) = (env @ [c'], c') \<and> isfinite c' \<and> (isfinite c \<longrightarrow> fge c' c)"
  by (cases val; cases c) (auto simp: env_step_def Let_def)

lemma env_fold_sorted:
  assumes "sorted_wrt fle env" and "\<forall>x \<in> set env. fle x c" and "env \<noteq> [] \<longrightarrow> isfinite c"
  shows "sorted_wrt fle (fst (fold env_step xs (env, c)))"
  using assms
proof (induction xs arbitrary: env c)
  case Nil
  then show ?case by simp
next
  case (Cons x xs)
  obtain c' where st: "env_step x (env, c) = (env @ [c'], c')"
    and fin: "isfinite c'" and ge: "isfinite c \<longrightarrow> fge c' c"
    using env_step_result by blast
  have le: "\<forall>y \<in> set env. fle y c'"
  proof
    fix y assume y: "y \<in> set env"
    then have "fge c y" "isfinite c" using Cons.prems by (auto simp: fle_def)
    then show "fle y c'" using ge fge_trans by (auto simp: fle_def)
  qed
  have refl: "fle c' c'" using fin by (cases c') (simp_all add: fle_def)
  have s: "sorted_wrt fle (env @ [c'])"
    using Cons.prems(1) le by (simp add: sorted_wrt_append)
  have b: "\<forall>y \<in> set (env @ [c']). fle y c'" using le refl by simp
  show ?case using Cons.IH [OF s b] fin st by simp
qed

lemma running_env_sorted: "sorted_wrt fle (running_env xs)"
  unfolding running_env_def by (rule env_fold_sorted) simp_all

lemma sorted_wrt_butlast: "sorted_wrt P xs \<Longrightarrow> sorted_wrt P (butlast xs)"
  by (induction xs) (auto dest: in_set_butlastD)

text \<open>
  What the two passes do guarantee: each is a running maximum of finite values, so the
  result is non-decreasing strictly before the clamped reference index and
  non-increasing from it on. Only the step onto the reference position is not covered.
\<close>

lemma monotonic_envelope_sides:
  assumes "vals \<noteq> []" and "idx = nat (max 0 (min r (int (length vals) - 1)))"
  shows "sorted_wrt fle (take idx (monotonic_envelope vals r)) \<and>
         sorted_wrt (\<lambda>a b. fle b a) (drop idx (monotonic_envelope vals r))"
proof -
  have n: "0 < length vals" using assms(1) by simp
  define i where "i = max 0 (min r (int (length vals) - 1))"
  have "0 \<le> i \<and> i < int (length vals)" using n by (auto simp: i_def)
  then have rng: "idx < length vals" using assms(2) unfolding i_def [symmetric] by linarith
  let ?lo = "butlast (running_env (take (Suc idx) vals))"
  let ?hi = "rev (running_env (rev (drop idx vals)))"
  have i0: "0 \<le> i" by (simp add: i_def)
  have idx: "nat i = idx" using assms(2) by (simp only: i_def)
  have suc: "nat (i + 1) = Suc idx" using i0 idx by linarith
  have "monotonic_envelope vals r =
        butlast (running_env (take (nat (i + 1)) vals)) @
        rev (running_env (rev (drop (nat i) vals)))"
    using assms(1) by (simp add: monotonic_envelope_def Let_def i_def)
  then have eq: "monotonic_envelope vals r = ?lo @ ?hi"
    by (simp only: suc idx)
  have len: "length ?lo = idx" using rng by (simp add: running_env_length)
  have "sorted_wrt fle ?lo" by (rule sorted_wrt_butlast) (rule running_env_sorted)
  moreover have "sorted_wrt (\<lambda>a b. fle b a) ?hi"
    using running_env_sorted [of "rev (drop idx vals)"] by (simp add: sorted_wrt_rev)
  ultimately show ?thesis unfolding eq using len by simp
qed

text \<open>
  C3. The docstring of \<^verbatim>\<open>_monotonic_envelope\<close> promises a low-frequency side
  (positions up to and including the reference) that is non-decreasing. The merge
  \<^verbatim>\<open>lo_env[:-1] + hi_env\<close> drops the last element of the low side and puts the
  first element of the high side at the reference position; the two differ as soon as
  a value before the reference exceeds every value from the reference on. On
  \<^verbatim>\<open>[5.0, 1.0, 1.0]\<close> with reference index 1 the result is the input itself, which
  falls from 5 to 1 between positions 0 and 1.
\<close>

theorem monotonic_envelope_dip_at_reference:
  "monotonic_envelope [Fin 5, Fin 1, Fin 1] 1 = [Fin 5, Fin 1, Fin 1] \<and>
   \<not> fle (monotonic_envelope [Fin 5, Fin 1, Fin 1] 1 ! 0)
         (monotonic_envelope [Fin 5, Fin 1, Fin 1] 1 ! 1)"
  by (simp add: monotonic_envelope_def running_env_def env_step_def Let_def fle_def)

text \<open>
  C10. The envelope builder has no failing branch: for every list and every integer
  reference index it returns a list of the length of its input, the empty list for the
  empty input, and the result is the one of the reference index clamped to
  \<open>[0, n - 1]\<close>: a negative index behaves as 0 and an index past the end as
  \<open>n - 1\<close>.
\<close>

theorem monotonic_envelope_total:
  "monotonic_envelope [] r = [] \<and>
   length (monotonic_envelope vals r) = length vals \<and>
   monotonic_envelope vals r =
     monotonic_envelope vals (max 0 (min r (int (length vals) - 1))) \<and>
   (r < 0 \<longrightarrow> monotonic_envelope vals r = monotonic_envelope vals 0) \<and>
   (int (length vals) \<le> r \<longrightarrow>
      monotonic_envelope vals r = monotonic_envelope vals (int (length vals) - 1))"
proof -
  have e: "monotonic_envelope [] r = []" by (simp add: monotonic_envelope_def)
  have lo: "monotonic_envelope vals r = monotonic_envelope vals 0" if "r < 0"
    using that by (simp add: monotonic_envelope_def Let_def)
  have hi: "monotonic_envelope vals r = monotonic_envelope vals (int (length vals) - 1)"
    if "int (length vals) \<le> r"
    using that by (simp add: monotonic_envelope_def Let_def)
  show ?thesis using e lo hi monotonic_envelope_length monotonic_envelope_clamp by blast
qed

theorem monotonic_envelope_total_witness:
  "length (monotonic_envelope [Fin 1, Fin 3, Fin 2] (- 5)) = 3 \<and>
   monotonic_envelope [Fin 1, Fin 3, Fin 2] (- 5) = monotonic_envelope [Fin 1, Fin 3, Fin 2] 0 \<and>
   monotonic_envelope [Fin 1, Fin 3, Fin 2] 7 = monotonic_envelope [Fin 1, Fin 3, Fin 2] 2"
proof -
  have a: "(- 5 :: int) < 0" by simp
  have b: "int (length [Fin 1, Fin 3, Fin 2]) \<le> 7" by simp
  have c: "int (length [Fin 1, Fin 3, Fin 2]) - 1 = 2" by simp
  from monotonic_envelope_total [of "- 5" "[Fin 1, Fin 3, Fin 2]"] a
  have 1: "length (monotonic_envelope [Fin 1, Fin 3, Fin 2] (- 5)) = length [Fin 1, Fin 3, Fin 2]"
    and 2: "monotonic_envelope [Fin 1, Fin 3, Fin 2] (- 5) = monotonic_envelope [Fin 1, Fin 3, Fin 2] 0"
    by blast+
  from monotonic_envelope_total [of 7 "[Fin 1, Fin 3, Fin 2]"] b
  have "monotonic_envelope [Fin 1, Fin 3, Fin 2] 7 =
        monotonic_envelope [Fin 1, Fin 3, Fin 2] (int (length [Fin 1, Fin 3, Fin 2]) - 1)"
    by blast
  then have 3: "monotonic_envelope [Fin 1, Fin 3, Fin 2] 7 = monotonic_envelope [Fin 1, Fin 3, Fin 2] 2"
    unfolding c .
  from 1 2 3 show ?thesis by simp
qed

section \<open>Properties of the reference index selector\<close>

lemma max_key_scan_greatest:
  assumes "\<forall>x \<in> set (b # xs). isfinite (key x)"
  shows "max_key_scan key b xs \<in> set (b # xs) \<and>
         (\<forall>x \<in> set (b # xs). fge (key (max_key_scan key b xs)) (key x))"
  using assms
proof (induction xs arbitrary: b)
  case Nil
  then show ?case by (simp add: fge_refl)
next
  case (Cons x xs)
  let ?b' = "if fgt (key x) (key b) then x else b"
  have fin: "\<forall>y \<in> set (?b' # xs). isfinite (key y)" using Cons.prems by auto
  have step: "max_key_scan key b (x # xs) = max_key_scan key ?b' xs" by simp
  have ih: "max_key_scan key ?b' xs \<in> set (?b' # xs) \<and>
            (\<forall>y \<in> set (?b' # xs). fge (key (max_key_scan key ?b' xs)) (key y))"
    using Cons.IH [OF fin] .
  have ge_b': "fge (key (max_key_scan key ?b' xs)) (key ?b')" using ih by simp
  have b'_ge: "fge (key ?b') (key b) \<and> fge (key ?b') (key x)"
    using Cons.prems fgt_fge_finite [of "key x" "key b"]
    by (auto simp: fgt_imp_fge fge_refl)
  have "fge (key (max_key_scan key ?b' xs)) (key b)"
       "fge (key (max_key_scan key ?b' xs)) (key x)"
    using ge_b' b'_ge fge_trans by blast+
  moreover have "max_key_scan key ?b' xs \<in> set (b # x # xs)" using ih by auto
  ultimately show ?case unfolding step using ih by auto
qed

lemma max_key_scan_first:
  assumes "\<forall>x \<in> set (b # xs). isfinite (key x)"
  shows "\<exists>ys zs. b # xs = ys @ max_key_scan key b xs # zs \<and>
           (\<forall>y \<in> set ys. fgt (key (max_key_scan key b xs)) (key y))"
  using assms
proof (induction xs arbitrary: b)
  case Nil
  have "[b] = [] @ max_key_scan key b [] # []" by simp
  then show ?case by (metis empty_iff empty_set)
next
  case (Cons x xs)
  show ?case
  proof (cases "fgt (key x) (key b)")
    case True
    then have step: "max_key_scan key b (x # xs) = max_key_scan key x xs" by simp
    have fin: "\<forall>y \<in> set (x # xs). isfinite (key y)" using Cons.prems by simp
    obtain ys zs where split: "x # xs = ys @ max_key_scan key x xs # zs"
      and before: "\<forall>y \<in> set ys. fgt (key (max_key_scan key x xs)) (key y)"
      using Cons.IH [OF fin] by blast
    have "fge (key (max_key_scan key x xs)) (key x)"
      using max_key_scan_greatest [OF fin] by simp
    then have "fgt (key (max_key_scan key x xs)) (key b)"
      using True fge_fgt_trans by blast
    then have "\<forall>y \<in> set (b # ys). fgt (key (max_key_scan key x xs)) (key y)"
      using before by simp
    moreover have "b # x # xs = (b # ys) @ max_key_scan key x xs # zs"
      using split by simp
    ultimately show ?thesis unfolding step by blast
  next
    case False
    then have step: "max_key_scan key b (x # xs) = max_key_scan key b xs" by simp
    have fin: "\<forall>y \<in> set (b # xs). isfinite (key y)" using Cons.prems by simp
    have bx: "fge (key b) (key x)"
      using False Cons.prems fgt_fge_finite [of "key x" "key b"] by simp
    obtain ys zs where split: "b # xs = ys @ max_key_scan key b xs # zs"
      and before: "\<forall>y \<in> set ys. fgt (key (max_key_scan key b xs)) (key y)"
      using Cons.IH [OF fin] by blast
    show ?thesis
    proof (cases ys)
      case Nil
      then have "b = max_key_scan key b xs" using split by (metis append_Nil list.inject)
      then have "b # x # xs = [] @ max_key_scan key b xs # (x # xs)" by simp
      then show ?thesis unfolding step by (metis empty_iff empty_set)
    next
      case (Cons y ys')
      then have yb: "y = b" and xs: "xs = ys' @ max_key_scan key b xs # zs"
        using split by (metis append_Cons list.inject)+
      have "fgt (key (max_key_scan key b xs)) (key b)" using before Cons yb by simp
      then have "fgt (key (max_key_scan key b xs)) (key x)"
        using bx fgt_fge_trans by blast
      then have "\<forall>y \<in> set (b # x # ys'). fgt (key (max_key_scan key b xs)) (key y)"
        using before Cons yb by simp
      moreover have "b # x # xs = (b # x # ys') @ max_key_scan key b xs # zs"
        using xs by simp
      ultimately show ?thesis unfolding step by blast
    qed
  qed
qed

lemma reference_index_no_eligible:
  assumes "\<forall>i < length amps. \<not> eligible (amps ! i)"
  shows "reference_index freqs amps ref_mode ref_hz = Inr 0"
proof -
  have "filter (\<lambda>i. eligible (amps ! i)) [0 ..< length amps] = []"
    using assms by (simp add: filter_empty_conv)
  then show ?thesis by (simp add: reference_index_def Let_def)
qed

lemma reference_index_max:
  assumes ne: "freqs \<noteq> []"
    and mode: "\<not> startswith (lower ref_mode) ''freq''"
    and ex: "j < length amps" "eligible (amps ! j)"
  shows "\<exists>k. reference_index freqs amps ref_mode ref_hz = Inr k \<and> k < length amps \<and>
           eligible (amps ! k) \<and>
           (\<forall>i < length amps. eligible (amps ! i) \<longrightarrow> fge (amps ! k) (amps ! i)) \<and>
           (\<forall>i < k. eligible (amps ! i) \<longrightarrow> fgt (amps ! k) (amps ! i))"
proof -
  define fi where "fi = filter (\<lambda>i. eligible (amps ! i)) [0 ..< length amps]"
  have set_fi: "set fi = {i. i < length amps \<and> eligible (amps ! i)}"
    by (auto simp: fi_def)
  have "j \<in> set fi" using ex set_fi by simp
  then obtain i0 rest where fi: "fi = i0 # rest" by (cases fi) auto
  define k where "k = max_key_scan (\<lambda>i. amps ! i) i0 rest"
  have res: "reference_index freqs amps ref_mode ref_hz = Inr k"
    using ne mode fi
    by (simp add: reference_index_def Let_def k_def fi_def [symmetric])
  have fin: "\<forall>x \<in> set (i0 # rest). isfinite (amps ! x)"
    using set_fi fi by (auto simp: eligible_def)
  have k_in: "k \<in> set fi" and k_max: "\<forall>x \<in> set fi. fge (amps ! k) (amps ! x)"
    using max_key_scan_greatest [OF fin] by (simp_all add: k_def fi)
  obtain ys zs where split: "fi = ys @ k # zs"
    and before: "\<forall>y \<in> set ys. fgt (amps ! k) (amps ! y)"
    using max_key_scan_first [OF fin] unfolding k_def fi by blast
  have srt: "sorted fi" by (simp add: fi_def sorted_wrt_filter)
  have first: "fgt (amps ! k) (amps ! i)" if "i < k" "eligible (amps ! i)" for i
  proof -
    have "k < length amps" using k_in set_fi by simp
    then have "i \<in> set fi" using that set_fi by simp
    moreover have "i \<notin> set (k # zs)"
      using srt that(1) unfolding split by (auto simp: sorted_append)
    ultimately have "i \<in> set ys" unfolding split by simp
    then show ?thesis using before by simp
  qed
  show ?thesis using res k_in k_max first set_fi by auto
qed

text \<open>
  C6. Only indices whose amplitude is finite and strictly positive are eligible. Without
  an eligible index the selector returns 0. In a mode that does not start with
  \<^verbatim>\<open>freq\<close> (such as \<^verbatim>\<open>"max"\<close>), on a non-empty frequency list (parallel
  sequences with an eligible index are non-empty), it returns an eligible index whose
  amplitude is at least every eligible amplitude and strictly greater than every eligible
  amplitude to its left: the first index of the greatest eligible amplitude. On
  \<^verbatim>\<open>[100, 200, 300]\<close>, \<^verbatim>\<open>[1.0, 2.0, 2.0]\<close>, \<^verbatim>\<open>"max"\<close> it returns 1.
\<close>

theorem reference_index_first_max:
  "((\<forall>i < length amps. \<not> eligible (amps ! i)) \<longrightarrow>
      reference_index freqs amps ref_mode ref_hz = Inr 0) \<and>
   (freqs \<noteq> [] \<and> \<not> startswith (lower ref_mode) ''freq'' \<and>
    (\<exists>j < length amps. eligible (amps ! j)) \<longrightarrow>
      (\<exists>k. reference_index freqs amps ref_mode ref_hz = Inr k \<and> k < length amps \<and>
           eligible (amps ! k) \<and>
           (\<forall>i < length amps. eligible (amps ! i) \<longrightarrow> fge (amps ! k) (amps ! i)) \<and>
           (\<forall>i < k. eligible (amps ! i) \<longrightarrow> fgt (amps ! k) (amps ! i)))) \<and>
   reference_index [Fin 100, Fin 200, Fin 300] [Fin 1, Fin 2, Fin 2] ''max'' (Fin 0) = Inr 1"
proof -
  have ex: "reference_index [Fin 100, Fin 200, Fin 300] [Fin 1, Fin 2, Fin 2] ''max'' (Fin 0)
            = Inr 1"
    by (simp add: reference_index_def eligible_def lower_def lower_char_def startswith_def)
  show ?thesis
    using reference_index_no_eligible reference_index_max ex by blast
qed

theorem reference_index_first_max_witness:
  "reference_index [Fin 100, Fin 200, Fin 300] [NaN, Fin 0, PInf] ''max'' (Fin 0) = Inr 0 \<and>
   reference_index [Fin 100, Fin 200, Fin 300] [Fin 1, Fin 2, Fin 2] ''Max'' (Fin 0) = Inr 1"
proof -
  let ?f = "[Fin 100, Fin 200, Fin 300]"
  let ?a = "[Fin 1, Fin 2, Fin 2]"
  have none: "\<forall>i < length [NaN, Fin 0, PInf]. \<not> eligible ([NaN, Fin 0, PInf] ! i)"
    by (simp add: eligible_def less_Suc_eq nth_Cons')
  have 2: "reference_index ?f [NaN, Fin 0, PInf] ''max'' (Fin 0) = Inr 0"
    using reference_index_first_max [of "[NaN, Fin 0, PInf]" ?f "''max''" "Fin 0"] none
    by blast
  have pre: "?f \<noteq> [] \<and> \<not> startswith (lower ''Max'') ''freq'' \<and>
             (\<exists>j < length ?a. eligible (?a ! j))"
  proof -
    have "(1::nat) < length ?a \<and> eligible (?a ! 1)" by (simp add: eligible_def)
    then have "\<exists>j < length ?a. eligible (?a ! j)" by blast
    then show ?thesis by (simp add: startswith_def lower_def lower_char_def)
  qed
  obtain k where res: "reference_index ?f ?a ''Max'' (Fin 0) = Inr k"
    and k: "k < length ?a"
    and mx: "\<forall>i < length ?a. eligible (?a ! i) \<longrightarrow> fge (?a ! k) (?a ! i)"
    and fst: "\<forall>i < k. eligible (?a ! i) \<longrightarrow> fgt (?a ! k) (?a ! i)"
    using reference_index_first_max [of ?a ?f "''Max''" "Fin 0"] pre by blast
  have "k = 0 \<or> k = 1 \<or> k = 2" using k by auto
  moreover have "k \<noteq> 0"
  proof
    assume "k = 0"
    then have "fge (?a ! 0) (?a ! 1)"
      using mx [rule_format, of 1] by (simp add: eligible_def)
    then show False by simp
  qed
  moreover have "k \<noteq> 2"
  proof
    assume "k = 2"
    then have "fgt (?a ! 2) (?a ! 1)"
      using fst [rule_format, of 1] by (simp add: eligible_def)
    then show False by simp
  qed
  ultimately have "k = 1" by blast
  then have 3: "reference_index ?f ?a ''Max'' (Fin 0) = Inr 1" using res by simp
  show ?thesis using 2 3 by blast
qed

section \<open>Properties of the spike filter\<close>

lemma spike_step_eq:
  "spike_step rnd rows window factor min_percent item (filtered, suppressed) =
     (filtered @ [spike_row rnd rows window factor min_percent item],
      suppressed @ (if spike_hit rnd rows window factor min_percent item
                    then [spike_record rnd rows window item] else []))"
  by (cases item)
     (auto simp: spike_step_def spike_row_def spike_hit_def spike_record_def
        spike_threshold_def spike_baseline_def Let_def)

lemma spike_fold:
  "fold (spike_step rnd rows window factor min_percent) items (filtered, suppressed) =
     (filtered @ map (spike_row rnd rows window factor min_percent) items,
      suppressed @ map (spike_record rnd rows window)
                     (filter (spike_hit rnd rows window factor min_percent) items))"
proof (induction items arbitrary: filtered suppressed)
  case Nil
  show ?case by simp
next
  case (Cons item items)
  show ?case by (simp add: spike_step_eq Cons.IH)
qed

lemma filter_spikes_eq:
  "filter_spikes rnd rows window factor min_percent =
     (map (spike_row rnd rows window factor min_percent) (enumerate 0 rows),
      map (spike_record rnd rows window)
        (filter (spike_hit rnd rows window factor min_percent) (enumerate 0 rows)))"
  by (simp add: filter_spikes_def spike_fold)

lemma spike_row_frame:
  "row_frame (spike_row rnd rows window factor min_percent item) = row_frame (snd item)"
  by (cases item) (auto simp: spike_row_def row_frame_def)

lemma not_fgt_py_max2: "\<not> fgt x (py_max2 m x)"
  by (cases x; cases m) (simp_all add: py_max2_def)

text \<open>
  C4. Whatever the rounding of the float arithmetic: for a row with a finite THD and a
  finite neighbour inside the window, the THD column of the output row is the baseline
  (the median of the finite neighbours, as \<^verbatim>\<open>statistics.median\<close> computes it)
  when the THD strictly exceeds \<^verbatim>\<open>max(min_percent, baseline * factor)\<close>, with the
  product as the float multiplication computes it, and the original THD otherwise; a
  THD equal to the computed \<^verbatim>\<open>baseline * factor\<close> is kept. The suppression list
  holds, in the order of the rows, the record \<^verbatim>\<open>(freq, original_thd, baseline)\<close> of
  every replaced row and nothing else.
\<close>

theorem filter_spikes_threshold:
  assumes "idx < length rows"
    and "rows ! idx = (freq, vr, pk, thd_percent)"
    and "isfinite thd_percent"
    and "neighbors rows window idx \<noteq> []"
  shows "fst (filter_spikes rnd rows window factor min_percent) ! idx =
           (freq, vr, pk,
            if fgt thd_percent (spike_threshold rnd rows window factor min_percent idx)
            then spike_baseline rnd rows window idx else thd_percent) \<and>
         (thd_percent = fmul_rounded rnd (spike_baseline rnd rows window idx) factor \<longrightarrow>
            fst (filter_spikes rnd rows window factor min_percent) ! idx =
              (freq, vr, pk, thd_percent)) \<and>
         spike_hit rnd rows window factor min_percent (idx, rows ! idx) =
           fgt thd_percent (spike_threshold rnd rows window factor min_percent idx) \<and>
         spike_record rnd rows window (idx, rows ! idx) =
           (freq, thd_percent, spike_baseline rnd rows window idx) \<and>
         snd (filter_spikes rnd rows window factor min_percent) =
           map (spike_record rnd rows window)
             (filter (spike_hit rnd rows window factor min_percent) (enumerate 0 rows))"
proof -
  have hit: "spike_hit rnd rows window factor min_percent (idx, rows ! idx) =
             fgt thd_percent (spike_threshold rnd rows window factor min_percent idx)"
    using assms by (simp add: spike_hit_def)
  have nth: "fst (filter_spikes rnd rows window factor min_percent) ! idx =
             spike_row rnd rows window factor min_percent (idx, rows ! idx)"
    using assms(1) by (simp add: filter_spikes_eq nth_enumerate_eq)
  have 1: "fst (filter_spikes rnd rows window factor min_percent) ! idx =
           (freq, vr, pk,
            if fgt thd_percent (spike_threshold rnd rows window factor min_percent idx)
            then spike_baseline rnd rows window idx else thd_percent)"
    unfolding nth using hit assms(2) by (simp add: spike_row_def)
  have 2: "fst (filter_spikes rnd rows window factor min_percent) ! idx =
           (freq, vr, pk, thd_percent)"
    if "thd_percent = fmul_rounded rnd (spike_baseline rnd rows window idx) factor"
    using 1 that not_fgt_py_max2 [of thd_percent min_percent]
    by (simp add: spike_threshold_def)
  have 3: "spike_record rnd rows window (idx, rows ! idx) =
           (freq, thd_percent, spike_baseline rnd rows window idx)"
    using assms(2) by (simp add: spike_record_def)
  have 4: "snd (filter_spikes rnd rows window factor min_percent) =
           map (spike_record rnd rows window)
             (filter (spike_hit rnd rows window factor min_percent) (enumerate 0 rows))"
    by (simp add: filter_spikes_eq)
  show ?thesis using 1 2 hit 3 4 by blast
qed

lemma neighbors_example:
  "neighbors [(Fin 100, Fin 1, Fin 2, Fin a), (Fin 200, Fin 1, Fin 2, t),
              (Fin 300, Fin 1, Fin 2, Fin a)] 1 (Suc 0) = [a, a]"
  "neighbors [(Fin 100, Fin 1, Fin 2, Fin a), (Fin 200, Fin 1, Fin 2, t),
              (Fin 300, Fin 1, Fin 2, Fin a)] 1 0 = (case t of Fin r \<Rightarrow> [r] | _ \<Rightarrow> [])"
  "neighbors [(Fin 100, Fin 1, Fin 2, Fin a), (Fin 200, Fin 1, Fin 2, t),
              (Fin 300, Fin 1, Fin 2, Fin a)] 1 (Suc (Suc 0)) =
     (case t of Fin r \<Rightarrow> [r] | _ \<Rightarrow> [])"
  by (cases t; simp add: neighbors_def row_thd_def upt_rec List.map_filter_simps)+

lemma median_pair: "rnd (a + a) = Fin (a + a) \<Longrightarrow> rnd a = Fin a \<Longrightarrow> median rnd [a, a] = Fin a"
  by (simp add: median_def fadd_rounded_def fhalf_rounded_def)

lemma median_single: "median rnd [a] = Fin a"
  by (simp add: median_def)

text \<open>
  The witness runs the filter on three rows with window 1 and the exact rounding, on
  values whose sums and products are floats: a THD of 5 above the threshold
  \<open>max(1/2, 1 * 2)\<close> is replaced and recorded; a THD of 2, equal to
  \<open>baseline * factor\<close>, is kept; a THD of 3, above \<open>baseline * factor = 2\<close> but not
  above the floor 4, is kept. The last run is the example of the rounding above: the
  THD \<^verbatim>\<open>0.30000000000000004\<close> between two rows of \<^verbatim>\<open>0.1\<close> with factor 3
  equals the computed product and is kept.
\<close>

theorem filter_spikes_threshold_witness:
  "fst (filter_spikes Fin [(Fin 100, Fin 1, Fin 2, Fin 1), (Fin 200, Fin 1, Fin 2, Fin 5),
                            (Fin 300, Fin 1, Fin 2, Fin 1)] 1 (Fin 2) (Fin (1 / 2))) ! 1 =
     (Fin 200, Fin 1, Fin 2, Fin 1) \<and>
   snd (filter_spikes Fin [(Fin 100, Fin 1, Fin 2, Fin 1), (Fin 200, Fin 1, Fin 2, Fin 5),
                            (Fin 300, Fin 1, Fin 2, Fin 1)] 1 (Fin 2) (Fin (1 / 2))) =
     [(Fin 200, Fin 5, Fin 1)] \<and>
   fst (filter_spikes Fin [(Fin 100, Fin 1, Fin 2, Fin 1), (Fin 200, Fin 1, Fin 2, Fin 2),
                            (Fin 300, Fin 1, Fin 2, Fin 1)] 1 (Fin 2) (Fin (1 / 2))) ! 1 =
     (Fin 200, Fin 1, Fin 2, Fin 2) \<and>
   fst (filter_spikes Fin [(Fin 100, Fin 1, Fin 2, Fin 1), (Fin 200, Fin 1, Fin 2, Fin 3),
                            (Fin 300, Fin 1, Fin 2, Fin 1)] 1 (Fin 2) (Fin 4)) ! 1 =
     (Fin 200, Fin 1, Fin 2, Fin 3) \<and>
   fst (filter_spikes example_rounding
          [(Fin 100, Fin 1, Fin 2, Fin float_0_1),
           (Fin 200, Fin 1, Fin 2, Fin float_0_30000000000000004),
           (Fin 300, Fin 1, Fin 2, Fin float_0_1)] 1 (Fin 3) (Fin 0)) ! 1 =
     (Fin 200, Fin 1, Fin 2, Fin float_0_30000000000000004)"
proof -
  let ?R = "\<lambda>t. [(Fin 100, Fin 1, Fin 2, Fin 1), (Fin 200, Fin 1, Fin 2, t),
                  (Fin 300, Fin 1, Fin 2, Fin 1)]"
  let ?h = "Fin (1 / 2)"
  have base: "spike_baseline Fin (?R t) 1 1 = Fin 1" for t
    by (simp add: spike_baseline_def neighbors_example median_pair)
  have thr: "spike_threshold Fin (?R t) 1 (Fin 2) ?h 1 = Fin 2" for t
    unfolding spike_threshold_def base by (simp add: py_max2_def fmul_rounded_def)
  have thr4: "spike_threshold Fin (?R t) 1 (Fin 2) (Fin 4) 1 = Fin 4" for t
    unfolding spike_threshold_def base by (simp add: py_max2_def fmul_rounded_def)
  have thr0: "spike_threshold Fin (?R (Fin 5)) 1 (Fin 2) ?h 0 = Fin 10"
    and thr2: "spike_threshold Fin (?R (Fin 5)) 1 (Fin 2) ?h (Suc (Suc 0)) = Fin 10"
    by (simp_all add: spike_threshold_def spike_baseline_def neighbors_example median_single
        py_max2_def fmul_rounded_def)
  have hit0: "\<not> spike_hit Fin (?R (Fin 5)) 1 (Fin 2) ?h (0, (Fin 100, Fin 1, Fin 2, Fin 1))"
    and hit1: "spike_hit Fin (?R (Fin 5)) 1 (Fin 2) ?h (Suc 0, (Fin 200, Fin 1, Fin 2, Fin 5))"
    and hit2: "\<not> spike_hit Fin (?R (Fin 5)) 1 (Fin 2) ?h
                   (Suc (Suc 0), (Fin 300, Fin 1, Fin 2, Fin 1))"
    using thr [of "Fin 5"]
    by (simp_all add: spike_hit_def thr0 thr2 neighbors_example)
  have hits: "filter (spike_hit Fin (?R (Fin 5)) 1 (Fin 2) ?h) (enumerate 0 (?R (Fin 5))) =
              [(1, (Fin 200, Fin 1, Fin 2, Fin 5))]"
    using hit0 hit1 hit2 by simp
  have a: "1 < length (?R (Fin t))" "?R (Fin t) ! 1 = (Fin 200, Fin 1, Fin 2, Fin t)"
    "isfinite (Fin t)" "neighbors (?R (Fin t)) 1 1 \<noteq> []" for t
    by (simp_all add: neighbors_example)
  note t5 = filter_spikes_threshold [OF a [of 5], of Fin "Fin 2" ?h]
  note t2 = filter_spikes_threshold [OF a [of 2], of Fin "Fin 2" ?h]
  note t3 = filter_spikes_threshold [OF a [of 3], of Fin "Fin 2" "Fin 4"]
  have gt: "fgt (Fin 5) (Fin 2)" by simp
  have "fst (filter_spikes Fin (?R (Fin 5)) 1 (Fin 2) ?h) ! 1 =
        (Fin 200, Fin 1, Fin 2,
         if fgt (Fin 5) (spike_threshold Fin (?R (Fin 5)) 1 (Fin 2) ?h 1)
         then spike_baseline Fin (?R (Fin 5)) 1 1 else Fin 5)"
    using t5 by (rule conjunct1)
  then have 1: "fst (filter_spikes Fin (?R (Fin 5)) 1 (Fin 2) ?h) ! 1 =
                (Fin 200, Fin 1, Fin 2, Fin 1)"
    unfolding thr base using gt by (simp only: if_True)
  have "snd (filter_spikes Fin (?R (Fin 5)) 1 (Fin 2) ?h) =
        map (spike_record Fin (?R (Fin 5)) 1)
          (filter (spike_hit Fin (?R (Fin 5)) 1 (Fin 2) ?h) (enumerate 0 (?R (Fin 5))))"
    by (rule t5 [THEN conjunct2, THEN conjunct2, THEN conjunct2, THEN conjunct2])
  then have 2: "snd (filter_spikes Fin (?R (Fin 5)) 1 (Fin 2) ?h) = [(Fin 200, Fin 5, Fin 1)]"
    unfolding hits by (simp add: spike_record_def base [unfolded One_nat_def])
  have "Fin 2 = fmul_rounded Fin (spike_baseline Fin (?R (Fin 2)) 1 1) (Fin 2)"
    unfolding base by (simp add: fmul_rounded_def)
  then have 3: "fst (filter_spikes Fin (?R (Fin 2)) 1 (Fin 2) ?h) ! 1 =
                (Fin 200, Fin 1, Fin 2, Fin 2)"
    using t2 [THEN conjunct2, THEN conjunct1] by (rule rev_mp)
  have ngt: "\<not> fgt (Fin 3) (Fin 4)" by simp
  have "fst (filter_spikes Fin (?R (Fin 3)) 1 (Fin 2) (Fin 4)) ! 1 =
        (Fin 200, Fin 1, Fin 2,
         if fgt (Fin 3) (spike_threshold Fin (?R (Fin 3)) 1 (Fin 2) (Fin 4) 1)
         then spike_baseline Fin (?R (Fin 3)) 1 1 else Fin 3)"
    using t3 by (rule conjunct1)
  then have 4: "fst (filter_spikes Fin (?R (Fin 3)) 1 (Fin 2) (Fin 4)) ! 1 =
                (Fin 200, Fin 1, Fin 2, Fin 3)"
    unfolding thr4 using ngt by (simp only: if_False)
  let ?E = "[(Fin 100, Fin 1, Fin 2, Fin float_0_1),
             (Fin 200, Fin 1, Fin 2, Fin float_0_30000000000000004),
             (Fin 300, Fin 1, Fin 2, Fin float_0_1)]"
  have e: "1 < length ?E" "?E ! 1 = (Fin 200, Fin 1, Fin 2, Fin float_0_30000000000000004)"
    "isfinite (Fin float_0_30000000000000004)" "neighbors ?E 1 1 \<noteq> []"
    by (simp_all add: neighbors_example)
  have r1: "example_rounding (float_0_1 + float_0_1) = Fin (float_0_1 + float_0_1)"
    and r2: "example_rounding float_0_1 = Fin float_0_1"
    by (simp_all add: example_rounding_def float_0_1_def)
  have ebase: "spike_baseline example_rounding ?E 1 1 = Fin float_0_1"
    by (simp add: spike_baseline_def neighbors_example median_pair [OF r1 r2])
  have "Fin float_0_30000000000000004 =
        fmul_rounded example_rounding (spike_baseline example_rounding ?E 1 1) (Fin 3)"
    unfolding ebase by (simp add: fmul_rounded_def example_rounding_def)
  then have 5: "fst (filter_spikes example_rounding ?E 1 (Fin 3) (Fin 0)) ! 1 =
                (Fin 200, Fin 1, Fin 2, Fin float_0_30000000000000004)"
    using filter_spikes_threshold [OF e, of example_rounding "Fin 3" "Fin 0",
        THEN conjunct2, THEN conjunct1] by (rule rev_mp)
  show ?thesis using 1 2 3 4 5 by (intro conjI)
qed

text \<open>
  C7. The spike filter returns as many rows as it is given and leaves the columns
  \<^verbatim>\<open>freq\<close>, \<^verbatim>\<open>vrms\<close> and \<^verbatim>\<open>vpp\<close> of every row as they are, whatever the
  window, the factor, the floor and the rounding of the arithmetic.
\<close>

theorem filter_spikes_frame:
  "length (fst (filter_spikes rnd rows window factor min_percent)) = length rows \<and>
   map row_frame (fst (filter_spikes rnd rows window factor min_percent)) = map row_frame rows"
proof -
  have "map row_frame (map (spike_row rnd rows window factor min_percent) (enumerate 0 rows)) =
        map (row_frame \<circ> snd) (enumerate 0 rows)"
    by (simp add: spike_row_frame)
  also have "map (row_frame \<circ> snd) (enumerate 0 rows) = map row_frame (map snd (enumerate 0 rows))"
    by (simp only: map_map)
  also have "map row_frame (map snd (enumerate 0 rows)) = map row_frame rows"
    by (simp only: map_snd_enumerate)
  finally have m: "map row_frame (map (spike_row rnd rows window factor min_percent)
                     (enumerate 0 rows)) = map row_frame rows" .
  have f: "fst (filter_spikes rnd rows window factor min_percent) =
           map (spike_row rnd rows window factor min_percent) (enumerate 0 rows)"
    by (simp add: filter_spikes_eq)
  show ?thesis unfolding f using m by simp
qed

theorem filter_spikes_frame_witness:
  "length (fst (filter_spikes Fin [(Fin 100, Fin 1, Fin 2, Fin 1),
                                (Fin 200, Fin 3, Fin 4, Fin 5),
                                (Fin 300, Fin 1, Fin 2, Fin 1)] 1 (Fin 2) (Fin 2))) = 3 \<and>
   map row_frame (fst (filter_spikes Fin [(Fin 100, Fin 1, Fin 2, Fin 1),
                                (Fin 200, Fin 3, Fin 4, Fin 5),
                                (Fin 300, Fin 1, Fin 2, Fin 1)] 1 (Fin 2) (Fin 2))) =
     [(Fin 100, Fin 1, Fin 2), (Fin 200, Fin 3, Fin 4), (Fin 300, Fin 1, Fin 2)]"
  using filter_spikes_frame [of Fin "[(Fin 100, Fin 1, Fin 2, Fin 1),
                                (Fin 200, Fin 3, Fin 4, Fin 5),
                                (Fin 300, Fin 1, Fin 2, Fin 1)]" 1 "Fin 2" "Fin 2"]
  by (simp add: row_frame_def)

section \<open>Properties of the sweep drivers\<close>

subsection \<open>Validation\<close>

lemma thd_sweep_early_validation:
  assumes "points a < 2 \<or> \<not> isfinite (amp_vpp a) \<or> fle (amp_vpp a) (Fin 0) \<or>
           \<not> isfinite (dwell_s a) \<or> flt (dwell_s a) (Fin 0)"
  shows "\<exists>msg. thd_sweep w a = (Inl (ValueError msg), [])"
  using assms by (auto simp: thd_sweep_def thd_sweep_measure_def)

lemma thd_sweep_late_validation:
  assumes "build_freq_points w (start_hz a) (stop_hz a) (points a) = Inr freqs"
    and "calibrate_to_vpp a \<noteq> None \<and> calibration_curve a = None"
  shows "\<exists>msg. thd_sweep w a = (Inl (ValueError msg), [])"
  using assms by (auto simp: thd_sweep_def thd_sweep_measure_def)

lemma knee_sweep_early_validation:
  assumes "points a < 2 \<or> \<not> isfinite (amp_vpp a) \<or> fle (amp_vpp a) (Fin 0) \<or>
           \<not> isfinite (dwell_s a) \<or> flt (dwell_s a) (Fin 0) \<or>
           \<not> isfinite (knee_drop_db a) \<or> fle (knee_drop_db a) (Fin 0)"
  shows "\<exists>msg. knee_sweep w a = (Inl (ValueError msg), [])"
  using assms by (auto simp: knee_sweep_def knee_sweep_measure_def)

lemma knee_sweep_late_validation:
  assumes "build_freq_points w (start_hz a) (stop_hz a) (points a) = Inr freqs"
    and "(calibrate_to_vpp a \<noteq> None \<and> calibration_curve a = None) \<or>
         smoothing_mode (smoothing a) \<notin> set [''median'', ''mean'', ''none'']"
  shows "\<exists>msg. knee_sweep w a = (Inl (ValueError msg), [])"
  using assms by (auto simp: knee_sweep_def knee_sweep_measure_def Let_def)

text \<open>
  C5, as stated, fails on the smoothing name: \<^verbatim>\<open>knee_sweep\<close> compares
  \<^verbatim>\<open>(smoothing or "none").lower()\<close> with the three names, so \<^verbatim>\<open>"MEDIAN"\<close>,
  which is none of \<^verbatim>\<open>"median"\<close>, \<^verbatim>\<open>"mean"\<close>, \<^verbatim>\<open>"none"\<close>, is accepted and
  the sweep runs to its end.
\<close>

theorem knee_sweep_smoothing_counterexample:
  "''MEDIAN'' \<notin> set [''median'', ''mean'', ''none''] \<and>
   fst (knee_sweep stub_collaborators (stub_knee_args\<lparr>smoothing := Some ''MEDIAN''\<rparr>)) =
     Inr \<lparr>res_rows = [(Fin 100, Fin 1, Fin 2, NInf), (Fin 150, Fin 1, Fin 2, NInf),
                      (Fin 200, Fin 1, Fin 2, NInf)],
          res_knees = None, res_ref_db = NaN, res_target_db = NaN, res_csv_path = None\<rparr>"
  by (simp add: knee_sweep_def knee_sweep_measure_def knee_sweep_restore_def
      stub_collaborators_def stub_knee_args_def smoothing_mode_def lower_def lower_char_def
      knee_row_def calibrate_def fle_def flt_def)

text \<open>
  C5, as the code has it. \<^verbatim>\<open>thd_sweep\<close> raises ValueError, with no instrument call
  and no log record before it, when \<^verbatim>\<open>points < 2\<close>, when \<^verbatim>\<open>amp_vpp\<close> is not
  finite or \<^verbatim>\<open><= 0\<close>, when \<^verbatim>\<open>dwell_s\<close> is not finite or negative, and, once
  \<^verbatim>\<open>build_freq_points\<close> has returned, when \<^verbatim>\<open>calibrate_to_vpp\<close> is given
  without a curve. \<^verbatim>\<open>knee_sweep\<close> does the same, and also when
  \<^verbatim>\<open>knee_drop_db\<close> is not finite or \<^verbatim>\<open><= 0\<close>, and, once
  \<^verbatim>\<open>build_freq_points\<close> has returned, when the smoothing name, lower-cased and
  with \<^verbatim>\<open>None\<close> and the empty string read as \<^verbatim>\<open>"none"\<close>, is not one of
  \<^verbatim>\<open>"median"\<close>, \<^verbatim>\<open>"mean"\<close>, \<^verbatim>\<open>"none"\<close>.
\<close>

theorem sweep_validation:
  fixes a :: "'a thd_args_scheme" and k :: "'b knee_args_scheme"
  shows
  "(points a < 2 \<or> \<not> isfinite (amp_vpp a) \<or> fle (amp_vpp a) (Fin 0) \<or>
    \<not> isfinite (dwell_s a) \<or> flt (dwell_s a) (Fin 0) \<longrightarrow>
      (\<exists>msg. thd_sweep w a = (Inl (ValueError msg), []))) \<and>
   (build_freq_points w (start_hz a) (stop_hz a) (points a) = Inr freqs \<and>
    calibrate_to_vpp a \<noteq> None \<and> calibration_curve a = None \<longrightarrow>
      (\<exists>msg. thd_sweep w a = (Inl (ValueError msg), []))) \<and>
   (points k < 2 \<or> \<not> isfinite (amp_vpp k) \<or> fle (amp_vpp k) (Fin 0) \<or>
    \<not> isfinite (dwell_s k) \<or> flt (dwell_s k) (Fin 0) \<or>
    \<not> isfinite (knee_drop_db k) \<or> fle (knee_drop_db k) (Fin 0) \<longrightarrow>
      (\<exists>msg. knee_sweep w k = (Inl (ValueError msg), []))) \<and>
   (build_freq_points w (start_hz k) (stop_hz k) (points k) = Inr freqs' \<and>
    ((calibrate_to_vpp k \<noteq> None \<and> calibration_curve k = None) \<or>
     smoothing_mode (smoothing k) \<notin> set [''median'', ''mean'', ''none'']) \<longrightarrow>
      (\<exists>msg. knee_sweep w k = (Inl (ValueError msg), [])))"
proof -
  have 1: "points a < 2 \<or> \<not> isfinite (amp_vpp a) \<or> fle (amp_vpp a) (Fin 0) \<or>
           \<not> isfinite (dwell_s a) \<or> flt (dwell_s a) (Fin 0) \<longrightarrow>
           (\<exists>msg. thd_sweep w a = (Inl (ValueError msg), []))"
    using thd_sweep_early_validation [of a w] by blast
  have 2: "build_freq_points w (start_hz a) (stop_hz a) (points a) = Inr freqs \<and>
           calibrate_to_vpp a \<noteq> None \<and> calibration_curve a = None \<longrightarrow>
           (\<exists>msg. thd_sweep w a = (Inl (ValueError msg), []))"
    using thd_sweep_late_validation [of w a freqs] by blast
  have 3: "points k < 2 \<or> \<not> isfinite (amp_vpp k) \<or> fle (amp_vpp k) (Fin 0) \<or>
           \<not> isfinite (dwell_s k) \<or> flt (dwell_s k) (Fin 0) \<or>
           \<not> isfinite (knee_drop_db k) \<or> fle (knee_drop_db k) (Fin 0) \<longrightarrow>
           (\<exists>msg. knee_sweep w k = (Inl (ValueError msg), []))"
    using knee_sweep_early_validation [of k w] by blast
  have 4: "build_freq_points w (start_hz k) (stop_hz k) (points k) = Inr freqs' \<and>
           ((calibrate_to_vpp k \<noteq> None \<and> calibration_curve k = None) \<or>
            smoothing_mode (smoothing k) \<notin> set [''median'', ''mean'', ''none'']) \<longrightarrow>
           (\<exists>msg. knee_sweep w k = (Inl (ValueError msg), []))"
    using knee_sweep_late_validation [of w k freqs'] by blast
  show ?thesis using 1 2 3 4 by blast
qed

theorem sweep_validation_witness:
  "(\<exists>msg. thd_sweep stub_collaborators (stub_thd_args\<lparr>amp_vpp := NaN\<rparr>) =
            (Inl (ValueError msg), [])) \<and>
   (\<exists>msg. thd_sweep stub_collaborators (stub_thd_args\<lparr>calibrate_to_vpp := Some (Fin 1)\<rparr>) =
            (Inl (ValueError msg), [])) \<and>
   (\<exists>msg. knee_sweep stub_collaborators (stub_knee_args\<lparr>knee_drop_db := Fin 0\<rparr>) =
            (Inl (ValueError msg), [])) \<and>
   (\<exists>msg. knee_sweep stub_collaborators (stub_knee_args\<lparr>smoothing := Some ''spline''\<rparr>) =
            (Inl (ValueError msg), []))"
proof -
  let ?w = stub_collaborators
  let ?a1 = "stub_thd_args\<lparr>amp_vpp := NaN\<rparr>"
  let ?a2 = "stub_thd_args\<lparr>calibrate_to_vpp := Some (Fin 1)\<rparr>"
  let ?k1 = "stub_knee_args\<lparr>knee_drop_db := Fin 0\<rparr>"
  let ?k2 = "stub_knee_args\<lparr>smoothing := Some ''spline''\<rparr>"
  let ?fs = "[Fin 100, Fin 150, Fin 200]"
  have h1: "points ?a1 < 2 \<or> \<not> isfinite (amp_vpp ?a1) \<or> fle (amp_vpp ?a1) (Fin 0) \<or>
            \<not> isfinite (dwell_s ?a1) \<or> flt (dwell_s ?a1) (Fin 0)"
    by (simp add: stub_thd_args_def)
  have h2: "build_freq_points ?w (start_hz ?a2) (stop_hz ?a2) (points ?a2) = Inr ?fs \<and>
            calibrate_to_vpp ?a2 \<noteq> None \<and> calibration_curve ?a2 = None"
    by (simp add: stub_thd_args_def stub_collaborators_def)
  have h3: "points ?k1 < 2 \<or> \<not> isfinite (amp_vpp ?k1) \<or> fle (amp_vpp ?k1) (Fin 0) \<or>
            \<not> isfinite (dwell_s ?k1) \<or> flt (dwell_s ?k1) (Fin 0) \<or>
            \<not> isfinite (knee_drop_db ?k1) \<or> fle (knee_drop_db ?k1) (Fin 0)"
    by (simp add: stub_knee_args_def fle_def)
  have h4: "build_freq_points ?w (start_hz ?k2) (stop_hz ?k2) (points ?k2) = Inr ?fs \<and>
            ((calibrate_to_vpp ?k2 \<noteq> None \<and> calibration_curve ?k2 = None) \<or>
             smoothing_mode (smoothing ?k2) \<notin> set [''median'', ''mean'', ''none''])"
    by (simp add: stub_knee_args_def stub_collaborators_def smoothing_mode_def lower_def
        lower_char_def)
  have 1: "\<exists>msg. thd_sweep ?w ?a1 = (Inl (ValueError msg), [])"
    using sweep_validation [of ?a1 ?w ?fs ?k1 ?fs] h1 by blast
  have 2: "\<exists>msg. thd_sweep ?w ?a2 = (Inl (ValueError msg), [])"
    using sweep_validation [of ?a2 ?w ?fs ?k1 ?fs] h2 by blast
  have 3: "\<exists>msg. knee_sweep ?w ?k1 = (Inl (ValueError msg), [])"
    using sweep_validation [of ?a1 ?w ?fs ?k1 ?fs] h3 by blast
  have 4: "\<exists>msg. knee_sweep ?w ?k2 = (Inl (ValueError msg), [])"
    using sweep_validation [of ?a1 ?w ?fs ?k2 ?fs] h4 by blast
  show ?thesis using 1 2 3 4 by blast
qed

subsection \<open>The restore after a sweep\<close>

lemma thd_sweep_restore_caught:
  assumes "scope_resume_run w (visa_resource a) = None"
    and "\<forall>exc. fy_apply w (fy_port a) (fy_proto a) (post_freq_hz a) (amp_vpp a) = Some exc \<longrightarrow>
           is_Exception exc"
    and "\<forall>spd exc. post_seconds_per_div a = Some spd \<longrightarrow>
           scope_configure_timebase w (visa_resource a) spd = Some exc \<longrightarrow> is_Exception exc"
  shows "fst (thd_sweep_restore w a ret) = Inr ret \<and>
         filter is_warning (snd (thd_sweep_restore w a ret)) =
           (case fy_apply w (fy_port a) (fy_proto a) (post_freq_hz a) (amp_vpp a) of
              None \<Rightarrow> []
            | Some exc \<Rightarrow> [Log_warning_fy_reset (post_freq_hz a) (amp_vpp a)
                             (port_or_auto (fy_port a)) (fy_proto a) exc])"
  using assms
  by (auto simp: thd_sweep_restore_def Let_def split: option.splits)

lemma thd_sweep_measure_no_warning:
  "\<not> list_ex is_warning (snd (thd_sweep_measure w a))"
  by (auto simp: thd_sweep_measure_def Let_def split: sum.splits option.splits prod.splits)

text \<open>
  C2, as stated, fails twice. An exception of \<^verbatim>\<open>scope_resume_run\<close> is not caught:
  after a measurement that completed, \<^verbatim>\<open>thd_sweep\<close> raises it. An exception of
  \<^verbatim>\<open>scope_configure_timebase\<close> is discarded by \<^verbatim>\<open>suppress(Exception)\<close> and the
  sweep returns, but no warning is logged.
\<close>

theorem thd_sweep_cleanup_counterexample:
  "fst (thd_sweep_measure
          (stub_collaborators\<lparr>scope_resume_run := (\<lambda>r. Some (OtherException ''VisaIOError''))\<rparr>)
          stub_thd_args) =
     Inr ([(Fin 100, Fin 1, Fin 2, Fin 1), (Fin 150, Fin 1, Fin 2, Fin 1),
           (Fin 200, Fin 1, Fin 2, Fin 1)], None, []) \<and>
   fst (thd_sweep
          (stub_collaborators\<lparr>scope_resume_run := (\<lambda>r. Some (OtherException ''VisaIOError''))\<rparr>)
          stub_thd_args) =
     Inl (OtherException ''VisaIOError'') \<and>
   thd_sweep
     (stub_collaborators\<lparr>scope_configure_timebase :=
        (\<lambda>r spd. Some (OtherException ''VisaIOError''))\<rparr>)
     (stub_thd_args\<lparr>post_seconds_per_div := Some (Fin (1 / 10000))\<rparr>) =
     (Inr ([(Fin 100, Fin 1, Fin 2, Fin 1), (Fin 150, Fin 1, Fin 2, Fin 1),
            (Fin 200, Fin 1, Fin 2, Fin 1)], None, []),
      [Call_sweep_audio_kpis, Call_scope_resume_run ''FAKE::SCOPE'',
       Call_fy_apply (Some ''FAKE::GEN'') ''FY ASCII 9600'' (Fin 1234) (Fin (1 / 2)),
       Call_scope_configure_timebase ''FAKE::SCOPE'' (Fin (1 / 10000))])"
  by (simp add: thd_sweep_def thd_sweep_measure_def thd_sweep_restore_def
      stub_collaborators_def stub_thd_args_def thd_row_def calibrate_def fle_def flt_def)

text \<open>
  C2, as the code has it. When the measurement part of \<^verbatim>\<open>thd_sweep\<close> has completed
  and \<^verbatim>\<open>scope_resume_run\<close> returns, every exception derived from
  \<^verbatim>\<open>Exception\<close> that the generator restore (\<^verbatim>\<open>post_freq_hz\<close>, the original
  \<^verbatim>\<open>amp_vpp\<close>) raises is caught and logged as a warning, every such exception of the
  timebase restore is discarded without a log record, and \<^verbatim>\<open>thd_sweep\<close> returns
  \<^verbatim>\<open>(rows, out_path, suppressed)\<close>. The warnings of the whole call are exactly the
  one of a failed generator restore.
\<close>

theorem thd_sweep_restore_best_effort:
  assumes "thd_sweep_measure w a = (Inr ret, t)"
    and "scope_resume_run w (visa_resource a) = None"
    and "\<forall>exc. fy_apply w (fy_port a) (fy_proto a) (post_freq_hz a) (amp_vpp a) = Some exc \<longrightarrow>
           is_Exception exc"
    and "\<forall>spd exc. post_seconds_per_div a = Some spd \<longrightarrow>
           scope_configure_timebase w (visa_resource a) spd = Some exc \<longrightarrow> is_Exception exc"
  shows "fst (thd_sweep w a) = Inr ret \<and>
         filter is_warning (snd (thd_sweep w a)) =
           (case fy_apply w (fy_port a) (fy_proto a) (post_freq_hz a) (amp_vpp a) of
              None \<Rightarrow> []
            | Some exc \<Rightarrow> [Log_warning_fy_reset (post_freq_hz a) (amp_vpp a)
                             (port_or_auto (fy_port a)) (fy_proto a) exc])"
proof -
  obtain r t' where rs: "thd_sweep_restore w a ret = (r, t')"
    by (cases "thd_sweep_restore w a ret")
  have sw: "thd_sweep w a = (r, t @ t')"
    using assms(1) rs by (simp add: thd_sweep_def)
  have "\<not> list_ex is_warning t"
    using thd_sweep_measure_no_warning [of w a] assms(1) by simp
  then have nt: "filter is_warning t = []"
    by (simp add: filter_empty_conv list_ex_iff)
  show ?thesis
    using thd_sweep_restore_caught [OF assms(2,3,4), of ret] rs sw nt by simp
qed

theorem thd_sweep_restore_best_effort_witness:
  "fst (thd_sweep
          (stub_collaborators\<lparr>fy_apply := (\<lambda>port proto f amp. Some (OtherException ''link lost'')),
             scope_configure_timebase := (\<lambda>r spd. Some (OtherException ''VisaIOError''))\<rparr>)
          (stub_thd_args\<lparr>post_seconds_per_div := Some (Fin (1 / 10000))\<rparr>)) =
     Inr ([(Fin 100, Fin 1, Fin 2, Fin 1), (Fin 150, Fin 1, Fin 2, Fin 1),
           (Fin 200, Fin 1, Fin 2, Fin 1)], None, []) \<and>
   filter is_warning (snd (thd_sweep
          (stub_collaborators\<lparr>fy_apply := (\<lambda>port proto f amp. Some (OtherException ''link lost'')),
             scope_configure_timebase := (\<lambda>r spd. Some (OtherException ''VisaIOError''))\<rparr>)
          (stub_thd_args\<lparr>post_seconds_per_div := Some (Fin (1 / 10000))\<rparr>))) =
     [Log_warning_fy_reset (Fin 1234) (Fin (1 / 2)) ''FAKE::GEN'' ''FY ASCII 9600''
        (OtherException ''link lost'')]"
proof -
  let ?w = "stub_collaborators\<lparr>fy_apply := (\<lambda>port proto f amp. Some (OtherException ''link lost'')),
             scope_configure_timebase := (\<lambda>r spd. Some (OtherException ''VisaIOError''))\<rparr>"
  let ?a = "stub_thd_args\<lparr>post_seconds_per_div := Some (Fin (1 / 10000))\<rparr>"
  let ?ret = "([(Fin 100, Fin 1, Fin 2, Fin 1), (Fin 150, Fin 1, Fin 2, Fin 1),
                (Fin 200, Fin 1, Fin 2, Fin 1)], None :: string option, [] :: suppression list)"
  have m: "thd_sweep_measure ?w ?a = (Inr ?ret, [Call_sweep_audio_kpis])"
    by (simp add: thd_sweep_measure_def stub_collaborators_def stub_thd_args_def thd_row_def
        calibrate_def fle_def flt_def)
  have r: "scope_resume_run ?w (visa_resource ?a) = None"
    by (simp add: stub_collaborators_def)
  have f: "\<forall>exc. fy_apply ?w (fy_port ?a) (fy_proto ?a) (post_freq_hz ?a) (amp_vpp ?a) = Some exc \<longrightarrow>
             is_Exception exc"
    by simp
  have tb: "\<forall>spd exc. post_seconds_per_div ?a = Some spd \<longrightarrow>
             scope_configure_timebase ?w (visa_resource ?a) spd = Some exc \<longrightarrow> is_Exception exc"
    by simp
  have fy: "fy_apply ?w (fy_port ?a) (fy_proto ?a) (post_freq_hz ?a) (amp_vpp ?a) =
            Some (OtherException ''link lost'')"
    by simp
  have args: "post_freq_hz ?a = Fin 1234" "amp_vpp ?a = Fin (1 / 2)"
    "port_or_auto (fy_port ?a) = ''FAKE::GEN''" "fy_proto ?a = ''FY ASCII 9600''"
    by (simp_all add: stub_thd_args_def port_or_auto_def)
  from thd_sweep_restore_best_effort [OF m r f tb]
  show ?thesis unfolding fy args by simp
qed

subsection \<open>The relative level of \<^verbatim>\<open>knee_sweep\<close>\<close>







end
